theory Spec2Isabelle
  imports
    Main
    "HOL-Library.Finite_Map"
    "HOL-Library.Char_ord"
    "HOL-Library.List_Lexorder"
begin

section \<open>GSS, the SSH and Git key switcher: a model of \<^verbatim>\<open>main.go\<close>\<close>

text \<open>
  The program keeps a list of SSH key pairs in \<^verbatim>\<open>~/.gss/config.json\<close>, and one
  run of it loads the list, executes one subcommand and saves the list again. The model
  follows \<^verbatim>\<open>main.go\<close> function by function. Everything the program reads from or
  writes to outside its own memory is explicit: the operating system and the libraries
  are an \<open>env\<close> of oracles that does not change, the files, the terminal and the calls of
  \<^verbatim>\<open>git\<close> are a \<open>world\<close> that is passed along, and \<^verbatim>\<open>os.Exit\<close> is a result of its own.
\<close>

subsection \<open>Data\<close>

text \<open>
  A value of Go's \<^verbatim>\<open>interface{}\<close> as \<^verbatim>\<open>encoding/json\<close> produces it: \<^verbatim>\<open>nil\<close>, a
  \<^verbatim>\<open>bool\<close>, a number, a \<^verbatim>\<open>string\<close>, a slice or a \<^verbatim>\<open>map[string]interface{}\<close>. The
  same type stands for a JSON document. A number keeps its literal: \<open>JInt\<close> for an
  integer literal, \<open>JFloat\<close> for any other one, carried as text and never computed with.
\<close>

datatype jnumber = JInt int | JFloat string

datatype json =
    JNull
  | JBool bool
  | JNumber jnumber
  | JString string
  | JArray "json list"
  | JObject "(string, json) fmap"

text \<open>
  \<^verbatim>\<open>type SSHKeyPairConfig struct\<close>. The field \<open>GitConfig\<close> is a Go map, which is
  \<^verbatim>\<open>nil\<close> (\<open>None\<close>) or a finite map.
\<close>

record SSHKeyPairConfig =
  Name :: string
  PrivateKeyPath :: string
  PublicKeyPath :: string
  SSHConfig :: string
  GitConfig :: "(string, json) fmap option"

text \<open>
  \<^verbatim>\<open>type SSHConfig struct\<close>. \<open>Keys\<close> is a slice: a \<^verbatim>\<open>nil\<close> slice and an empty one
  are both the empty list. \<open>ActiveKey\<close> is a Go \<^verbatim>\<open>int\<close>, modelled as an unbounded
  integer; \<open>fits_int\<close> says that a number is one a 64-bit \<^verbatim>\<open>int\<close> can hold.
\<close>

record SSHConfig =
  Keys :: "SSHKeyPairConfig list"
  ActiveKey :: int
  ConfigPath :: string
  SSHConfig :: string

definition fits_int :: "int \<Rightarrow> bool" where
  "fits_int n \<longleftrightarrow> - (2 ^ 63) \<le> n \<and> n < 2 ^ 63"

subsection \<open>The environment and the world\<close>

text \<open>The key material that \<^verbatim>\<open>crypto/rsa\<close>, \<^verbatim>\<open>encoding/pem\<close> and \<^verbatim>\<open>x/crypto/ssh\<close>
  produce: the PEM text of the private key, and the \<^verbatim>\<open>authorized_keys\<close> line of the
  public key (\<open>None\<close> when \<^verbatim>\<open>ssh.NewPublicKey\<close> returns an error).\<close>

record keymaterial =
  private_pem :: string
  public_line :: "string option"

text \<open>
  What the operating system and the libraries decide. \<open>path_join\<close>, \<open>path_dir\<close> and
  \<open>path_abs\<close> are \<^verbatim>\<open>filepath.Join\<close>, \<^verbatim>\<open>filepath.Dir\<close> and \<^verbatim>\<open>filepath.Abs\<close>
  (\<open>None\<close> when it returns an error), which depend on the platform. The \<open>_fails\<close>
  oracles say whether the call on that path returns an error; a call that returns an
  error changes nothing. \<open>stat_fails\<close> says whether \<^verbatim>\<open>os.Stat\<close> on that path returns
  an error other than that the file does not exist (a name that is too long, a
  directory on the way that is a file or may not be searched). \<open>git_fails\<close> says
  whether \<^verbatim>\<open>cmd.Run()\<close> returns an error for that argument vector. \<open>range_order\<close> is
  the order in which \<^verbatim>\<open>range\<close> visits the keys of a map, which Go leaves open: it is
  given the keys in ascending order. \<open>rsa_generate\<close> is \<open>None\<close> when
  \<^verbatim>\<open>rsa.GenerateKey\<close> returns an error; \<open>pem_decodes\<close> says whether \<^verbatim>\<open>pem.Decode\<close>
  finds a block in the bytes.
\<close>

record env =
  goos_windows :: bool
  home_dir :: string
  path_join :: "string list \<Rightarrow> string"
  path_dir :: "string \<Rightarrow> string"
  path_abs :: "string \<Rightarrow> string option"
  stat_fails :: "string \<Rightarrow> bool"
  mkdir_fails :: "string \<Rightarrow> bool"
  chmod_fails :: "string \<Rightarrow> bool"
  create_fails :: "string \<Rightarrow> bool"
  read_fails :: "string \<Rightarrow> bool"
  write_fails :: "string \<Rightarrow> bool"
  git_fails :: "string list \<Rightarrow> bool"
  range_order :: "string list \<Rightarrow> string list"
  rsa_generate :: "keymaterial option"
  pem_decodes :: "string \<Rightarrow> bool"

text \<open>
  The file \<^verbatim>\<open>config.json\<close> is the only one read through \<^verbatim>\<open>encoding/json\<close>. It is
  modelled by the document its bytes hold, \<open>Malformed\<close> when \<^verbatim>\<open>json.Unmarshal\<close> cannot
  parse them: the text layer of the library (white space, escapes, the spelling of
  numbers) is not part of this program.
\<close>

datatype stored = Malformed | Document json

text \<open>What the program prints without exiting, one constructor for each
  \<^verbatim>\<open>fmt.Printf\<close> or \<^verbatim>\<open>fmt.Println\<close> of that kind; the text is not rendered.\<close>

datatype msg =
    NoKeyPairsFound
  | KeyPairList "(bool \<times> SSHKeyPairConfig) list"
  | SwitchPrompt
  | DeletePrompt
  | AdjustingPermissions string
  | PermissionsSet
  | UsingIdentityFile string
  | SSHKeySwitched string string
  | LocalGitConfigNotFound string
  | InvalidScope string
  | NoGitConfig
  | GitConfigFailed string string
  | GitConfigSet string string string
  | UnsupportedGitValue string
  | GitConfigUpdated string string
  | SwitchedTo string int
  | WindowsInstructions string string
  | SelectedForDeletion SSHKeyPairConfig
  | ConfirmPrompt
  | ActiveKeyDeleted string
  | NoKeyPairsRemaining
  | ClearSSHConfigFailed
  | Deleted string int
  | Generated string string string
  | Imported string string string string

text \<open>
  The world outside the process. \<open>files\<close> maps a path to the bytes of the file there;
  paths are compared as strings, so one file has one path, and the modes of files and
  the directories are not tracked. \<open>store_file\<close> is \<^verbatim>\<open>config.json\<close>. \<open>stdin\<close> is the
  lines the terminal still delivers, \<open>out\<close> what has been printed, \<open>git_log\<close> the
  argument vectors of the commands that were run.
\<close>

record world =
  files :: "string \<rightharpoonup> string"
  store_file :: "stored option"
  stdin :: "string list"
  out :: "msg list"
  git_log :: "string list list"

text \<open>Every \<^verbatim>\<open>os.Exit\<close> of the program, named after the message printed before it.\<close>

datatype failure =
    ConfigDirFailed
  | UsageShown
  | AbsPrivFailed
  | AbsPubFailed
  | AbsSSHConfigFailed
  | NoKeyPairs
  | InvalidInput
  | InvalidIndex int int
  | PrivateKeyNotFound string
  | ChmodFailed
  | SSHDirFailed
  | SSHConfigNotFound string
  | SSHConfigReadFailed
  | SSHConfigUpdateFailed
  | DeletionCancelled
  | ConfigReadFailed
  | ConfigParseFailed
  | ConfigWriteFailed
  | KeyGenFailed
  | PrivCreateFailed
  | PrivWriteFailed
  | PubKeyFailed
  | PubCreateFailed
  | PubWriteFailed
  | PublicKeyNotFound string
  | PrivReadFailed
  | InvalidKeyFormat

text \<open>The status \<^verbatim>\<open>os.Exit\<close> is called with: 0 for a cancelled deletion, else 1.\<close>

definition exit_code :: "failure \<Rightarrow> int" where
  "exit_code f = (if f = DeletionCancelled then 0 else 1)"

text \<open>
  How a function ends: \<open>Exit\<close> when it calls \<^verbatim>\<open>os.Exit\<close> (the memory of the process is
  gone, the world stays), \<open>Return\<close> with the store and the world when it returns, and
  \<open>Hang\<close> when it never does either.
\<close>

datatype outcome = Exit failure world | Return SSHConfig world | Hang

definition emit :: "msg \<Rightarrow> world \<Rightarrow> world" where
  "emit m w = w\<lparr>out := out w @ [m]\<rparr>"

text \<open>Whether there is a file at the path: the test of the guards
  \<^verbatim>\<open>os.IsNotExist(err)\<close> in \<^verbatim>\<open>importKeyPair\<close> and \<^verbatim>\<open>switchCmd\<close>.\<close>

definition file_exists :: "world \<Rightarrow> string \<Rightarrow> bool" where
  "file_exists w p \<longleftrightarrow> files w p \<noteq> None"

text \<open>
  \<^verbatim>\<open>_, err := os.Stat(p); os.IsNotExist(err)\<close>: \<^verbatim>\<open>os.Stat\<close> returns the error that
  the file does not exist. It is false when there is a file, and also when
  \<^verbatim>\<open>os.Stat\<close> returns an error of another kind. The loop of \<^verbatim>\<open>getUniqueFilePaths\<close>
  ends on it, so there the other errors decide whether the program returns.
\<close>

definition statNotExist :: "env \<Rightarrow> world \<Rightarrow> string \<Rightarrow> bool" where
  "statNotExist env w p \<longleftrightarrow> \<not> stat_fails env p \<and> \<not> file_exists w p"

text \<open>\<^verbatim>\<open>bufio.NewReader(os.Stdin).ReadString('\n')\<close>, the error ignored as the
  program does: at the end of the input the line is empty.\<close>

definition readLine :: "world \<Rightarrow> string \<times> world" where
  "readLine w = (case stdin w of [] \<Rightarrow> ([], w) | l # ls \<Rightarrow> (l, w\<lparr>stdin := ls\<rparr>))"

subsection \<open>Library functions on strings\<close>

text \<open>\<^verbatim>\<open>strings.TrimSpace\<close>, for the white space of ASCII.\<close>

definition isSpace :: "char \<Rightarrow> bool" where
  "isSpace c \<longleftrightarrow> c \<in> {CHR '' '', CHR 0x09, CHR 0x0A, CHR 0x0B, CHR 0x0C, CHR 0x0D}"

definition trimSpace :: "string \<Rightarrow> string" where
  "trimSpace s = rev (dropWhile isSpace (rev (dropWhile isSpace s)))"

text \<open>\<^verbatim>\<open>strings.ToLower\<close>, for the letters of ASCII.\<close>

definition toLower :: "string \<Rightarrow> string" where
  "toLower s =
     map (\<lambda>c. if CHR ''A'' \<le> c \<and> c \<le> CHR ''Z'' then char_of (of_char c + (32::nat)) else c) s"

text \<open>\<^verbatim>\<open>strings.ReplaceAll(s, "\\", "/")\<close>.\<close>

definition slashes :: "string \<Rightarrow> string" where
  "slashes s = map (\<lambda>c. if c = CHR 0x5C then CHR ''/'' else c) s"

definition isDigit :: "char \<Rightarrow> bool" where
  "isDigit c \<longleftrightarrow> CHR ''0'' \<le> c \<and> c \<le> CHR ''9''"

definition digitVal :: "char \<Rightarrow> nat" where
  "digitVal c = of_char c - 48"

definition digitsVal :: "string \<Rightarrow> nat" where
  "digitsVal ds = foldl (\<lambda>n c. 10 * n + digitVal c) 0 ds"

text \<open>\<^verbatim>\<open>strconv.Atoi\<close>: an optional sign and at least one decimal digit, and a value
  that fits an \<^verbatim>\<open>int\<close>; \<open>None\<close> is the error.\<close>

definition atoi :: "string \<Rightarrow> int option" where
  "atoi s =
     (let neg = (s \<noteq> [] \<and> hd s = CHR ''-'');
          ds = (if s \<noteq> [] \<and> (hd s = CHR ''-'' \<or> hd s = CHR ''+'') then tl s else s);
          n = (if neg then - int (digitsVal ds) else int (digitsVal ds))
      in if ds = [] \<or> \<not> list_all isDigit ds \<or> \<not> fits_int n then None else Some n)"

text \<open>\<^verbatim>\<open>strconv.Itoa\<close>.\<close>

function natDigits :: "nat \<Rightarrow> string" where
  "natDigits n =
     (if n < 10 then [char_of (48 + n)] else natDigits (n div 10) @ [char_of (48 + n mod 10)])"
  by pat_completeness auto
termination
  by (relation "measure id") auto

declare natDigits.simps [simp del]

definition itoa :: "int \<Rightarrow> string" where
  "itoa i = (if i < 0 then CHR ''-'' # natDigits (nat (- i)) else natDigits (nat i))"

text \<open>
  \<^verbatim>\<open>encoding/json\<close> writes a Go string as a JSON string "coerced to valid UTF-8,
  replacing invalid bytes with the Unicode replacement rune", and reads that rune back
  as the bytes \<open>EF BF BD\<close>. \<open>runeLen\<close> is the length of the UTF-8 sequence a
  string starts with, as \<^verbatim>\<open>utf8.DecodeRuneInString\<close> finds it, and \<open>0\<close> where it
  reports an error; \<open>coerceUTF8\<close> is the string read back from the one written.
\<close>

definition byteIn :: "nat \<Rightarrow> nat \<Rightarrow> char \<Rightarrow> bool" where
  "byteIn lo hi c \<longleftrightarrow> lo \<le> of_char c \<and> of_char c \<le> hi"

fun runeLen :: "string \<Rightarrow> nat" where
  "runeLen [] = 0"
| "runeLen (b0 # bs) =
     (let x = (of_char b0 :: nat) in
      if x < 0x80 then 1
      else if 0xC2 \<le> x \<and> x \<le> 0xDF then
        (case bs of
           b1 # _ \<Rightarrow> if byteIn 0x80 0xBF b1 then 2 else 0
         | _ \<Rightarrow> 0)
      else if 0xE0 \<le> x \<and> x \<le> 0xEF then
        (case bs of
           b1 # b2 # _ \<Rightarrow>
             if byteIn (if x = 0xE0 then 0xA0 else 0x80) (if x = 0xED then 0x9F else 0xBF) b1 \<and>
                byteIn 0x80 0xBF b2
             then 3 else 0
         | _ \<Rightarrow> 0)
      else if 0xF0 \<le> x \<and> x \<le> 0xF4 then
        (case bs of
           b1 # b2 # b3 # _ \<Rightarrow>
             if byteIn (if x = 0xF0 then 0x90 else 0x80) (if x = 0xF4 then 0x8F else 0xBF) b1 \<and>
                byteIn 0x80 0xBF b2 \<and> byteIn 0x80 0xBF b3
             then 4 else 0
         | _ \<Rightarrow> 0)
      else 0)"

function coerceUTF8 :: "string \<Rightarrow> string" where
  "coerceUTF8 [] = []"
| "coerceUTF8 (b # bs) =
     (if runeLen (b # bs) = 0 then [CHR 0xEF, CHR 0xBF, CHR 0xBD] @ coerceUTF8 bs
      else take (runeLen (b # bs)) (b # bs) @ coerceUTF8 (drop (runeLen (b # bs)) (b # bs)))"
  by pat_completeness auto
termination
  by (relation "measure length") (auto simp del: runeLen.simps)

declare coerceUTF8.simps(2) [simp del]

definition validUTF8 :: "string \<Rightarrow> bool" where
  "validUTF8 s \<longleftrightarrow> coerceUTF8 s = s"

subsection \<open>The store file: \<^verbatim>\<open>loadConfig\<close> and \<^verbatim>\<open>saveConfig\<close>\<close>

text \<open>
  \<^verbatim>\<open>json.MarshalIndent(c, "", "  ")\<close>, by the tags of the two structs: the fields
  \<open>ConfigPath\<close> and \<open>SSHConfig\<close> of the store carry the tag \<^verbatim>\<open>json:"-"\<close> and are
  left out, and a \<^verbatim>\<open>nil\<close> map is \<^verbatim>\<open>null\<close>. The strings the program takes from
  its command line, which are the fields of a record and the strings among the values
  of its Git settings, are coerced; the keys of the settings and the values that are not
  strings are the program's own constants or come from a document that was read, and
  are written as they are.
\<close>

definition marshalValue :: "json \<Rightarrow> json" where
  "marshalValue j = (case j of JString s \<Rightarrow> JString (coerceUTF8 s) | _ \<Rightarrow> j)"

definition marshalKey :: "SSHKeyPairConfig \<Rightarrow> json" where
  "marshalKey k =
     JObject (fmap_of_list
       [(''name'', JString (coerceUTF8 (Name k))),
        (''private_key_path'', JString (coerceUTF8 (PrivateKeyPath k))),
        (''public_key_path'', JString (coerceUTF8 (PublicKeyPath k))),
        (''ssh_config'', JString (coerceUTF8 (SSHKeyPairConfig.SSHConfig k))),
        (''git_config'',
           (case GitConfig k of None \<Rightarrow> JNull | Some g \<Rightarrow> JObject (fmmap marshalValue g)))])"

definition marshalConfig :: "SSHConfig \<Rightarrow> json" where
  "marshalConfig c =
     JObject (fmap_of_list
       [(''keys'', JArray (map marshalKey (Keys c))),
        (''active_key'', JNumber (JInt (ActiveKey c)))])"

text \<open>
  \<^verbatim>\<open>json.Unmarshal(data, c)\<close>, for the names of the fields as \<^verbatim>\<open>saveConfig\<close> writes
  them: a member that is absent or \<^verbatim>\<open>null\<close> leaves the field as it is, a member of the
  wrong kind is an error (\<open>None\<close>). The elements of \<open>keys\<close> are decoded into new structs,
  whose fields start at their zero values.
\<close>

definition decodeString :: "(string, json) fmap \<Rightarrow> string \<Rightarrow> string option" where
  "decodeString m k =
     (case fmlookup m k of
        None \<Rightarrow> Some []
      | Some j \<Rightarrow> (case j of JNull \<Rightarrow> Some [] | JString s \<Rightarrow> Some s | _ \<Rightarrow> None))"

definition decodeMap :: "(string, json) fmap \<Rightarrow> string \<Rightarrow> (string, json) fmap option option" where
  "decodeMap m k =
     (case fmlookup m k of
        None \<Rightarrow> Some None
      | Some j \<Rightarrow> (case j of JNull \<Rightarrow> Some None | JObject g \<Rightarrow> Some (Some g) | _ \<Rightarrow> None))"

definition unmarshalKey :: "json \<Rightarrow> SSHKeyPairConfig option" where
  "unmarshalKey j =
     (case j of
        JNull \<Rightarrow>
          Some \<lparr>Name = [], PrivateKeyPath = [], PublicKeyPath = [], SSHConfig = [],
                GitConfig = None\<rparr>
      | JObject m \<Rightarrow>
          (case decodeString m ''name'' of None \<Rightarrow> None | Some n \<Rightarrow>
           case decodeString m ''private_key_path'' of None \<Rightarrow> None | Some priv \<Rightarrow>
           case decodeString m ''public_key_path'' of None \<Rightarrow> None | Some pub \<Rightarrow>
           case decodeString m ''ssh_config'' of None \<Rightarrow> None | Some sc \<Rightarrow>
           case decodeMap m ''git_config'' of None \<Rightarrow> None | Some g \<Rightarrow>
             Some \<lparr>Name = n, PrivateKeyPath = priv, PublicKeyPath = pub, SSHConfig = sc,
                   GitConfig = g\<rparr>)
      | _ \<Rightarrow> None)"

definition unmarshalKeys :: "(string, json) fmap \<Rightarrow> SSHKeyPairConfig list \<Rightarrow> SSHKeyPairConfig list option" where
  "unmarshalKeys m old =
     (case fmlookup m ''keys'' of
        None \<Rightarrow> Some old
      | Some j \<Rightarrow>
          (case j of JNull \<Rightarrow> Some old | JArray xs \<Rightarrow> those (map unmarshalKey xs) | _ \<Rightarrow> None))"

definition unmarshalActive :: "(string, json) fmap \<Rightarrow> int \<Rightarrow> int option" where
  "unmarshalActive m old =
     (case fmlookup m ''active_key'' of
        None \<Rightarrow> Some old
      | Some j \<Rightarrow>
          (case j of
             JNull \<Rightarrow> Some old
           | JNumber n \<Rightarrow> (case n of JInt i \<Rightarrow> if fits_int i then Some i else None | JFloat _ \<Rightarrow> None)
           | _ \<Rightarrow> None))"

definition unmarshalConfig :: "json \<Rightarrow> SSHConfig \<Rightarrow> SSHConfig option" where
  "unmarshalConfig j c =
     (case j of
        JNull \<Rightarrow> Some c
      | JObject m \<Rightarrow>
          (case unmarshalKeys m (Keys c) of None \<Rightarrow> None | Some ks \<Rightarrow>
           case unmarshalActive m (ActiveKey c) of None \<Rightarrow> None | Some a \<Rightarrow>
             Some (c\<lparr>Keys := ks, ActiveKey := a\<rparr>))
      | _ \<Rightarrow> None)"

definition configFile :: "env \<Rightarrow> SSHConfig \<Rightarrow> string" where
  "configFile env c = path_join env [ConfigPath c, ''config.json'']"

text \<open>\<^verbatim>\<open>func (c *SSHConfig) loadConfig()\<close>. When the file does not exist only \<open>Keys\<close>
  is assigned.\<close>

definition loadConfig :: "env \<Rightarrow> SSHConfig \<Rightarrow> world \<Rightarrow> outcome" where
  "loadConfig env c w =
     (case store_file w of
        None \<Rightarrow> Return (c\<lparr>Keys := []\<rparr>) w
      | Some f \<Rightarrow>
          if read_fails env (configFile env c) then Exit ConfigReadFailed w
          else (case f of
                  Malformed \<Rightarrow> Exit ConfigParseFailed w
                | Document j \<Rightarrow>
                    (case unmarshalConfig j c of
                       None \<Rightarrow> Exit ConfigParseFailed w
                     | Some c' \<Rightarrow> Return c' w)))"

text \<open>\<^verbatim>\<open>func (c *SSHConfig) saveConfig()\<close>. A write that fails leaves the file as it
  was.\<close>

definition saveConfig :: "env \<Rightarrow> SSHConfig \<Rightarrow> world \<Rightarrow> outcome" where
  "saveConfig env c w =
     (if write_fails env (configFile env c) then Exit ConfigWriteFailed w
      else Return c (w\<lparr>store_file := Some (Document (marshalConfig c))\<rparr>))"

subsection \<open>\<^verbatim>\<open>getUniqueFilePaths\<close> and \<^verbatim>\<open>generateKeyPair\<close>\<close>

text \<open>The loop \<^verbatim>\<open>for i := 1; ; i++\<close> of \<^verbatim>\<open>getUniqueFilePaths\<close>, entered with the
  current \<open>privPath\<close>. It ends only when \<^verbatim>\<open>os.Stat\<close> reports that the file does not
  exist: a path with a file and a path on which \<^verbatim>\<open>os.Stat\<close> fails otherwise are both
  passed over. It has no bound (and the counter is an unbounded integer here), so it
  is a partial function: \<open>None\<close> when it never ends.\<close>

partial_function (option) uniqueLoop ::
  "env \<Rightarrow> world \<Rightarrow> string \<Rightarrow> string \<Rightarrow> string \<Rightarrow> int \<Rightarrow> string option" where
  "uniqueLoop env w configPath baseName privPath i =
     (if statNotExist env w privPath then Some privPath
      else uniqueLoop env w configPath baseName
             (path_join env [configPath, baseName @ ''_'' @ itoa i @ ''.key'']) (i + 1))"

definition getUniqueFilePaths :: "env \<Rightarrow> world \<Rightarrow> string \<Rightarrow> string \<Rightarrow> (string \<times> string) option" where
  "getUniqueFilePaths env w configPath baseName =
     map_option (\<lambda>privPath. (privPath, privPath @ ''.pub''))
       (uniqueLoop env w configPath baseName (path_join env [configPath, baseName @ ''.key'']) 1)"

text \<open>
  \<^verbatim>\<open>func (c *SSHConfig) generateKeyPair(name string)\<close>. \<^verbatim>\<open>os.OpenFile\<close> with
  \<^verbatim>\<open>O_CREATE|O_TRUNC\<close> leaves an empty file, which the write then fills.
\<close>

definition generateKeyPair :: "env \<Rightarrow> string \<Rightarrow> SSHConfig \<Rightarrow> world \<Rightarrow> outcome" where
  "generateKeyPair env name0 c w =
     (let name = (if name0 = [] then ''id_rsa'' else name0) in
      case getUniqueFilePaths env w (ConfigPath c) name of
        None \<Rightarrow> Hang
      | Some (privPath, pubPath) \<Rightarrow>
      case path_abs env privPath of None \<Rightarrow> Exit AbsPrivFailed w | Some absPrivPath \<Rightarrow>
      case path_abs env pubPath of None \<Rightarrow> Exit AbsPubFailed w | Some absPubPath \<Rightarrow>
      case rsa_generate env of None \<Rightarrow> Exit KeyGenFailed w | Some km \<Rightarrow>
        if create_fails env absPrivPath then Exit PrivCreateFailed w
        else let w1 = w\<lparr>files := (files w)(absPrivPath \<mapsto> [])\<rparr> in
        if write_fails env absPrivPath then Exit PrivWriteFailed w1
        else let w2 = w1\<lparr>files := (files w1)(absPrivPath \<mapsto> private_pem km)\<rparr> in
        case public_line km of None \<Rightarrow> Exit PubKeyFailed w2 | Some pubBytes \<Rightarrow>
        if create_fails env absPubPath then Exit PubCreateFailed w2
        else let w3 = w2\<lparr>files := (files w2)(absPubPath \<mapsto> [])\<rparr> in
        if write_fails env absPubPath then Exit PubWriteFailed w3
        else let w4 = w3\<lparr>files := (files w3)(absPubPath \<mapsto> pubBytes)\<rparr> in
          Return
            (c\<lparr>Keys := Keys c @
                 [\<lparr>Name = name, PrivateKeyPath = absPrivPath, PublicKeyPath = absPubPath,
                   SSHConfig = [], GitConfig = Some fmempty\<rparr>]\<rparr>)
            (emit (Generated name absPrivPath absPubPath) w4))"

subsection \<open>\<^verbatim>\<open>importKeyPair\<close> and \<^verbatim>\<open>listKeyPairs\<close>\<close>

text \<open>\<^verbatim>\<open>func (c *SSHConfig) importKeyPair(...)\<close>.\<close>

definition importKeyPair ::
  "env \<Rightarrow> string \<Rightarrow> string \<Rightarrow> string \<Rightarrow> string \<Rightarrow> (string, json) fmap option \<Rightarrow>
   SSHConfig \<Rightarrow> world \<Rightarrow> outcome" where
  "importKeyPair env privPath pubPath name sshConfigPath gitConfig c w =
     (if \<not> file_exists w privPath then Exit (PrivateKeyNotFound privPath) w
      else if \<not> file_exists w pubPath then Exit (PublicKeyNotFound pubPath) w
      else if read_fails env privPath then Exit PrivReadFailed w
      else if \<not> pem_decodes env (the (files w privPath)) then Exit InvalidKeyFormat w
      else if sshConfigPath \<noteq> [] \<and> \<not> file_exists w sshConfigPath
        then Exit (SSHConfigNotFound sshConfigPath) w
      else
        Return
          (c\<lparr>Keys := Keys c @
               [\<lparr>Name = name, PrivateKeyPath = privPath, PublicKeyPath = pubPath,
                 SSHConfig = sshConfigPath, GitConfig = gitConfig\<rparr>]\<rparr>)
          (emit (Imported name privPath pubPath sshConfigPath) w))"

text \<open>\<^verbatim>\<open>func (c *SSHConfig) listKeyPairs()\<close>: each record with the mark of the active
  one.\<close>

definition listKeyPairs :: "SSHConfig \<Rightarrow> world \<Rightarrow> world" where
  "listKeyPairs c w =
     (if Keys c = [] then emit NoKeyPairsFound w
      else emit (KeyPairList (map (\<lambda>(i, k). (int i = ActiveKey c, k)) (List.enumerate 0 (Keys c)))) w)"

subsection \<open>\<^verbatim>\<open>switchCmd\<close>\<close>

text \<open>The parsed command line: \<^verbatim>\<open>os.Args[1]\<close> when there is one, and the values the
  flag sets of the subcommands hold after \<^verbatim>\<open>Parse\<close>, defaults included. A command line
  that \<^verbatim>\<open>flag\<close> rejects is not modelled.\<close>

record cmdline =
  subcommand :: "string option"
  gen_g :: string
  imp_i :: string
  imp_p :: string
  imp_n :: string
  imp_c :: string
  imp_git_email :: string
  imp_git_name :: string
  sw_i :: int
  sw_s :: string
  del_i :: int
  del_f :: bool

text \<open>
  \<^verbatim>\<open>switchCmd\<close> and \<^verbatim>\<open>deleteCmd\<close> call \<^verbatim>\<open>Visit\<close> to learn whether \<^verbatim>\<open>-i\<close> was
  given, and they call it before \<^verbatim>\<open>Parse\<close>. \<^verbatim>\<open>Visit\<close> calls its argument on the
  flags that have been set, and before \<^verbatim>\<open>Parse\<close> none has: \<open>indexProvided\<close> stays
  \<^verbatim>\<open>false\<close>.
\<close>

definition flagsSetAtVisit :: "string list" where
  "flagsSetAtVisit = []"

definition indexProvided :: bool where
  "indexProvided \<longleftrightarrow> ''i'' \<in> set flagsSetAtVisit"

text \<open>Lines 175 to 198: the index from the flag, or read from the terminal.\<close>

definition switchIndex :: "cmdline \<Rightarrow> SSHConfig \<Rightarrow> world \<Rightarrow> failure \<times> world + int \<times> world" where
  "switchIndex a c w =
     (if indexProvided then Inr (sw_i a, w)
      else if Keys c = [] then Inl (NoKeyPairs, w)
      else
        (let (input, w') = readLine (emit SwitchPrompt (listKeyPairs c w)) in
         case atoi (trimSpace input) of
           None \<Rightarrow> Inl (InvalidInput, w')
         | Some parsedIndex \<Rightarrow> Inr (parsedIndex, w')))"

text \<open>Lines 233 to 254: the content of the SSH configuration file.\<close>

definition sshConfigContent :: "env \<Rightarrow> SSHKeyPairConfig \<Rightarrow> world \<Rightarrow> failure + string" where
  "sshConfigContent env key w =
     (let predefinedConfig = ''IdentityFile '' @ PrivateKeyPath key in
      if SSHKeyPairConfig.SSHConfig key \<noteq> [] then
        (case path_abs env (SSHKeyPairConfig.SSHConfig key) of
           None \<Rightarrow> Inl AbsSSHConfigFailed
         | Some absSSHConfigPath \<Rightarrow>
             if \<not> file_exists w absSSHConfigPath then Inl (SSHConfigNotFound absSSHConfigPath)
             else if read_fails env absSSHConfigPath then Inl SSHConfigReadFailed
             else Inr (predefinedConfig @ [CHR 0x0A] @ the (files w absSSHConfigPath)))
      else Inr predefinedConfig)"

text \<open>Lines 263 to 275: the file of the Git scope.\<close>

definition gitScope :: "env \<Rightarrow> string \<Rightarrow> world \<Rightarrow> string \<times> world" where
  "gitScope env scope w =
     (if toLower scope = ''local'' then
        (let gitConfigFile = path_join env [''.'', ''.git'', ''config''] in
         (gitConfigFile,
          if \<not> file_exists w gitConfigFile then emit (LocalGitConfigNotFound gitConfigFile) w
          else w))
      else if toLower scope = ''global'' then (path_join env [home_dir env, ''.gitconfig''], w)
      else (path_join env [home_dir env, ''.gitconfig''], emit (InvalidScope scope) w))"

text \<open>The arguments of one \<^verbatim>\<open>git config\<close> command, lines 287 to 295.\<close>

definition gitArgs :: "string \<Rightarrow> string \<Rightarrow> string \<Rightarrow> string \<Rightarrow> string list" where
  "gitArgs scope gitConfigFile gitKey v =
     ''git'' # ''config'' #
       (if scope = ''global'' then [''--global''] else [''--file'', gitConfigFile]) @ [gitKey, v]"

text \<open>The entries of a map in the order \<^verbatim>\<open>range\<close> visits them.\<close>

definition rangeMap :: "env \<Rightarrow> (string, json) fmap \<Rightarrow> (string \<times> json) list" where
  "rangeMap env m =
     List.map_filter (\<lambda>k. map_option (Pair k) (fmlookup m k))
       (range_order env (sorted_list_of_fset (fmdom m)))"

text \<open>Lines 284 to 306: the loop over the entries. A value that is not a string is
  skipped; a command that fails is reported and the loop goes on.\<close>

fun applyGitConfig :: "env \<Rightarrow> string \<Rightarrow> string \<Rightarrow> (string \<times> json) list \<Rightarrow> world \<Rightarrow> world" where
  "applyGitConfig env scope gitConfigFile [] w = w"
| "applyGitConfig env scope gitConfigFile ((gitKey, gitValue) # rest) w =
     applyGitConfig env scope gitConfigFile rest
       (case gitValue of
          JString v \<Rightarrow>
            (let cmdArgs = gitArgs scope gitConfigFile gitKey v;
                 w' = w\<lparr>git_log := git_log w @ [cmdArgs]\<rparr>
             in if git_fails env cmdArgs then emit (GitConfigFailed gitKey scope) w'
                else emit (GitConfigSet gitKey v scope) w')
        | _ \<Rightarrow> emit (UnsupportedGitValue gitKey) w)"

definition sshCommand :: "SSHConfig \<Rightarrow> string" where
  "sshCommand c = ''ssh -F '' @ slashes (SSHConfig c)"

text \<open>
  Lines 277 to 308. \<open>key\<close> is a copy of the record, but a Go map is a reference: the
  assignment to \<^verbatim>\<open>key.GitConfig["core.sshCommand"]\<close> changes the map of the record in
  the store as well, which the model writes out.
\<close>

definition gitConfigUpdate ::
  "env \<Rightarrow> string \<Rightarrow> string \<Rightarrow> nat \<Rightarrow> SSHConfig \<Rightarrow> world \<Rightarrow> SSHConfig \<times> world" where
  "gitConfigUpdate env scope gitConfigFile n c w =
     (let key = Keys c ! n in
      case GitConfig key of
        None \<Rightarrow> (c, emit NoGitConfig w)
      | Some m \<Rightarrow>
          (let m' = fmupd ''core.sshCommand'' (JString (sshCommand c)) m;
               c' = c\<lparr>Keys := (Keys c)[n := key\<lparr>GitConfig := Some m'\<rparr>]\<rparr>
           in (c', emit (GitConfigUpdated (Name key) scope)
                     (applyGitConfig env scope gitConfigFile (rangeMap env m') w))))"

text \<open>Lines 310 to 335: the last message, and on Windows the instructions and the wait
  for the Enter key.\<close>

definition switchFinish :: "env \<Rightarrow> SSHConfig \<Rightarrow> SSHKeyPairConfig \<Rightarrow> int \<Rightarrow> world \<Rightarrow> world" where
  "switchFinish env c key chosenIndex w =
     (let w' = emit (SwitchedTo (Name key) chosenIndex) w in
      if goos_windows env
      then snd (readLine (emit (WindowsInstructions (PrivateKeyPath key) (SSHConfig c)) w'))
      else w')"

text \<open>Lines 200 to 205: the check of the index and the assignment to \<open>ActiveKey\<close>.\<close>

definition checkIndex :: "int \<Rightarrow> SSHConfig \<Rightarrow> failure + SSHConfig" where
  "checkIndex chosenIndex c =
     (if chosenIndex < 0 \<or> chosenIndex \<ge> int (length (Keys c))
      then Inl (InvalidIndex chosenIndex (int (length (Keys c)) - 1))
      else Inr (c\<lparr>ActiveKey := chosenIndex\<rparr>))"

text \<open>Lines 208 to 260: the private key is looked up and, except on Windows, its mode
  set; the directory of the SSH configuration file is created and the file written.
  \<open>Inl\<close> is an exit, \<open>Inr\<close> the world after the write.\<close>

definition writeSSHConfig ::
  "env \<Rightarrow> SSHConfig \<Rightarrow> SSHKeyPairConfig \<Rightarrow> world \<Rightarrow> failure \<times> world + world" where
  "writeSSHConfig env c key w0 =
     (let privKeyPath = PrivateKeyPath key in
      if \<not> file_exists w0 privKeyPath then Inl (PrivateKeyNotFound privKeyPath, w0)
      else
      (let w1 = (if goos_windows env then w0 else emit (AdjustingPermissions privKeyPath) w0) in
       if \<not> goos_windows env \<and> chmod_fails env privKeyPath then Inl (ChmodFailed, w1)
       else
       (let w2 = (if goos_windows env then w1 else emit PermissionsSet w1) in
        if mkdir_fails env (path_dir env (SSHConfig c)) then Inl (SSHDirFailed, w2)
        else
        (let w3 = emit (UsingIdentityFile (PrivateKeyPath key)) w2 in
         case sshConfigContent env key w3 of
           Inl f \<Rightarrow> Inl (f, w3)
         | Inr configContent \<Rightarrow>
             if write_fails env (SSHConfig c) then Inl (SSHConfigUpdateFailed, w3)
             else
               Inr (emit (SSHKeySwitched (Name key) (PrivateKeyPath key))
                      (w3\<lparr>files := (files w3)(SSHConfig c \<mapsto> configContent)\<rparr>))))))"

text \<open>Lines 200 to 336: the switch to the chosen index.\<close>

definition switchTo :: "env \<Rightarrow> string \<Rightarrow> int \<Rightarrow> SSHConfig \<Rightarrow> world \<Rightarrow> outcome" where
  "switchTo env scope chosenIndex c0 w0 =
     (case checkIndex chosenIndex c0 of
        Inl f \<Rightarrow> Exit f w0
      | Inr c \<Rightarrow>
          (let key = Keys c ! nat chosenIndex in
           case writeSSHConfig env c key w0 of
             Inl (f, w) \<Rightarrow> Exit f w
           | Inr w4 \<Rightarrow>
               (let (gitConfigFile, w5) = gitScope env scope w4;
                    (c', w6) = gitConfigUpdate env scope gitConfigFile (nat chosenIndex) c w5
                in Return c' (switchFinish env c key chosenIndex w6))))"

text \<open>\<^verbatim>\<open>func switchCmd(config *SSHConfig)\<close>.\<close>

definition switchCmd :: "env \<Rightarrow> cmdline \<Rightarrow> SSHConfig \<Rightarrow> world \<Rightarrow> outcome" where
  "switchCmd env a c w =
     (case switchIndex a c w of
        Inl (f, w') \<Rightarrow> Exit f w'
      | Inr (chosenIndex, w') \<Rightarrow> switchTo env (sw_s a) chosenIndex c w')"

subsection \<open>\<^verbatim>\<open>deleteCmd\<close>\<close>

text \<open>Lines 351 to 374.\<close>

definition deleteIndex :: "cmdline \<Rightarrow> SSHConfig \<Rightarrow> world \<Rightarrow> failure \<times> world + int \<times> world" where
  "deleteIndex a c w =
     (if Keys c = [] then Inl (NoKeyPairs, w)
      else if indexProvided then Inr (del_i a, w)
      else
        (let (input, w') = readLine (emit DeletePrompt (listKeyPairs c w)) in
         case atoi (trimSpace input) of
           None \<Rightarrow> Inl (InvalidInput, w')
         | Some parsedIndex \<Rightarrow> Inr (parsedIndex, w')))"

text \<open>Lines 390 to 399: the confirmation; \<open>False\<close> when the deletion is cancelled.\<close>

definition confirmDelete :: "cmdline \<Rightarrow> world \<Rightarrow> bool \<times> world" where
  "confirmDelete a w =
     (if \<not> del_f a then
        (let (confirmation, w') = readLine (emit ConfirmPrompt w);
             confirmation' = trimSpace (toLower confirmation)
         in (\<not> (confirmation' \<noteq> ''y'' \<and> confirmation' \<noteq> ''yes''), w'))
      else (True, w))"

text \<open>Lines 401 to 421: the removal of the record and the new active index. The slice
  expression \<^verbatim>\<open>append(Keys[:i], Keys[i+1:]...)\<close> is the list without its element
  \<open>i\<close>.\<close>

definition removeKey :: "env \<Rightarrow> int \<Rightarrow> SSHConfig \<Rightarrow> world \<Rightarrow> SSHConfig \<times> world" where
  "removeKey env chosenIndex c0 w =
     (let key = Keys c0 ! nat chosenIndex;
          c = c0\<lparr>Keys := take (nat chosenIndex) (Keys c0) @ drop (nat chosenIndex + 1) (Keys c0)\<rparr>;
          (c', w') =
            (if ActiveKey c = chosenIndex then
               (if length (Keys c) > 0
                then (c\<lparr>ActiveKey := 0\<rparr>, emit (ActiveKeyDeleted (Name (Keys c ! 0))) w)
                else
                  (c\<lparr>ActiveKey := - 1\<rparr>,
                   (let w1 = emit NoKeyPairsRemaining w in
                    if write_fails env (SSHConfig c) then emit ClearSSHConfigFailed w1
                    else w1\<lparr>files := (files w1)(SSHConfig c \<mapsto> [])\<rparr>)))
             else if ActiveKey c > chosenIndex then (c\<lparr>ActiveKey := ActiveKey c - 1\<rparr>, w)
             else (c, w))
      in (c', emit (Deleted (Name key) chosenIndex) w'))"

text \<open>\<^verbatim>\<open>func deleteCmd(config *SSHConfig)\<close>.\<close>

definition deleteCmd :: "env \<Rightarrow> cmdline \<Rightarrow> SSHConfig \<Rightarrow> world \<Rightarrow> outcome" where
  "deleteCmd env a c w =
     (case deleteIndex a c w of
        Inl (f, w') \<Rightarrow> Exit f w'
      | Inr (chosenIndex, w1) \<Rightarrow>
          if chosenIndex < 0 \<or> chosenIndex \<ge> int (length (Keys c))
          then Exit (InvalidIndex chosenIndex (int (length (Keys c)) - 1)) w1
          else
            (let (confirmed, w2) =
                   confirmDelete a (emit (SelectedForDeletion (Keys c ! nat chosenIndex)) w1)
             in if \<not> confirmed then Exit DeletionCancelled w2
                else (let (c', w3) = removeKey env chosenIndex c w2 in Return c' w3)))"

subsection \<open>The other subcommands and \<^verbatim>\<open>main\<close>\<close>

text \<open>\<^verbatim>\<open>func generateCmd(config *SSHConfig)\<close>.\<close>

definition generateCmd :: "env \<Rightarrow> cmdline \<Rightarrow> SSHConfig \<Rightarrow> world \<Rightarrow> outcome" where
  "generateCmd env a c w =
     (if gen_g a = [] then Exit UsageShown w else generateKeyPair env (gen_g a) c w)"

text \<open>\<^verbatim>\<open>func importCmd(config *SSHConfig)\<close>.\<close>

definition importCmd :: "env \<Rightarrow> cmdline \<Rightarrow> SSHConfig \<Rightarrow> world \<Rightarrow> outcome" where
  "importCmd env a c w =
     (if imp_i a = [] \<or> imp_p a = [] \<or> imp_git_email a = [] \<or> imp_git_name a = [] \<or> imp_n a = []
      then Exit UsageShown w
      else
        case path_abs env (imp_i a) of None \<Rightarrow> Exit AbsPrivFailed w | Some absPrivPath \<Rightarrow>
        case path_abs env (imp_p a) of None \<Rightarrow> Exit AbsPubFailed w | Some absPubPath \<Rightarrow>
        case (if imp_c a \<noteq> [] then path_abs env (imp_c a) else Some []) of
          None \<Rightarrow> Exit AbsSSHConfigFailed w
        | Some absSSHConfigPath \<Rightarrow>
            (let g0 = fmempty;
                 g1 = (if imp_git_email a \<noteq> [] then fmupd ''user.email'' (JString (imp_git_email a)) g0
                       else g0);
                 gitConfig = (if imp_git_name a \<noteq> [] then fmupd ''user.name'' (JString (imp_git_name a)) g1
                       else g1)
             in importKeyPair env absPrivPath absPubPath (imp_n a) absSSHConfigPath
                  (Some gitConfig) c w))"

text \<open>\<^verbatim>\<open>func listCmd(config *SSHConfig)\<close>.\<close>

definition listCmd :: "cmdline \<Rightarrow> SSHConfig \<Rightarrow> world \<Rightarrow> outcome" where
  "listCmd a c w = Return c (listKeyPairs c w)"

text \<open>
  \<^verbatim>\<open>func main()\<close>. The fields \<open>Keys\<close> and \<open>ActiveKey\<close> of the new store are not
  assigned and have their zero values. \<^verbatim>\<open>saveConfig\<close> is deferred: it runs when
  \<^verbatim>\<open>main\<close> returns, and not when a subcommand calls \<^verbatim>\<open>os.Exit\<close>.
\<close>

definition newConfig :: "env \<Rightarrow> SSHConfig" where
  "newConfig env =
     \<lparr>Keys = [], ActiveKey = 0,
      ConfigPath = path_join env [home_dir env, ''.gss''],
      SSHConfig = path_join env [home_dir env, ''.ssh'', ''config'']\<rparr>"

definition dispatch :: "env \<Rightarrow> cmdline \<Rightarrow> string \<Rightarrow> SSHConfig \<Rightarrow> world \<Rightarrow> outcome" where
  "dispatch env a cmd c w =
     (if cmd = ''generate'' \<or> cmd = ''gen'' then generateCmd env a c w
      else if cmd = ''import'' \<or> cmd = ''i'' then importCmd env a c w
      else if cmd = ''list'' \<or> cmd = ''ls'' then listCmd a c w
      else if cmd = ''switch'' \<or> cmd = ''s'' then switchCmd env a c w
      else if cmd = ''delete'' \<or> cmd = ''del'' then deleteCmd env a c w
      else Exit UsageShown w)"

definition main :: "env \<Rightarrow> cmdline \<Rightarrow> world \<Rightarrow> outcome" where
  "main env a w =
     (let config = newConfig env in
      if mkdir_fails env (ConfigPath config) then Exit ConfigDirFailed w
      else
        (case loadConfig env config w of
           Exit f w' \<Rightarrow> Exit f w'
         | Hang \<Rightarrow> Hang
         | Return config1 w1 \<Rightarrow>
             (case subcommand a of
                None \<Rightarrow> Exit UsageShown w1
              | Some cmd \<Rightarrow>
                  (case dispatch env a cmd config1 w1 of
                     Exit f w' \<Rightarrow> Exit f w'
                   | Hang \<Rightarrow> Hang
                   | Return config2 w2 \<Rightarrow> saveConfig env config2 w2))))"

subsection \<open>Notions the properties are stated with\<close>

text \<open>The active index is unset (\<open>-1\<close>) or an index into \<open>Keys\<close>.\<close>

definition validActive :: "SSHConfig \<Rightarrow> bool" where
  "validActive c \<longleftrightarrow>
     ActiveKey c = - 1 \<or> (0 \<le> ActiveKey c \<and> ActiveKey c < int (length (Keys c)))"

text \<open>The index the user types at the prompt, and whether the answer to the
  confirmation that follows is yes.\<close>

definition enteredIndex :: "world \<Rightarrow> int option" where
  "enteredIndex w = atoi (trimSpace (fst (readLine w)))"

definition answersYes :: "world \<Rightarrow> bool" where
  "answersYes w \<longleftrightarrow>
     trimSpace (toLower (fst (readLine (snd (readLine w))))) \<in> {''y'', ''yes''}"

text \<open>The store without the record at position \<open>n\<close>.\<close>

definition without :: "nat \<Rightarrow> SSHKeyPairConfig list \<Rightarrow> SSHKeyPairConfig list" where
  "without n ks = take n ks @ drop (Suc n) ks"

text \<open>Nothing stops a switch to the record \<open>key\<close> after the check of the index: the
  private key is there, the calls of the operating system succeed, and the fragment, if
  the record names one, can be read.\<close>

definition switchReady :: "env \<Rightarrow> SSHConfig \<Rightarrow> world \<Rightarrow> SSHKeyPairConfig \<Rightarrow> bool" where
  "switchReady env c w key \<longleftrightarrow>
     file_exists w (PrivateKeyPath key) \<and>
     (goos_windows env \<or> \<not> chmod_fails env (PrivateKeyPath key)) \<and>
     \<not> mkdir_fails env (path_dir env (SSHConfig c)) \<and>
     (if SSHKeyPairConfig.SSHConfig key = [] then True
      else (case path_abs env (SSHKeyPairConfig.SSHConfig key) of
              None \<Rightarrow> False
            | Some p \<Rightarrow> file_exists w p \<and> \<not> read_fails env p)) \<and>
     \<not> write_fails env (SSHConfig c)"

text \<open>The names \<^verbatim>\<open>getUniqueFilePaths\<close> tries, in its order: number \<open>0\<close> is the name
  without a suffix, number \<open>i\<close> the one with the suffix \<^verbatim>\<open>_i\<close>.\<close>

definition candidate :: "env \<Rightarrow> string \<Rightarrow> string \<Rightarrow> nat \<Rightarrow> string" where
  "candidate env configPath baseName i =
     path_join env
       [configPath, baseName @ (if i = 0 then [] else ''_'' @ itoa (int i)) @ ''.key'']"

text \<open>A world without the messages, and an outcome without them: what a run leaves
  behind apart from what it printed.\<close>

definition quiet :: "world \<Rightarrow> world" where
  "quiet w = w\<lparr>out := []\<rparr>"

definition silent :: "outcome \<Rightarrow> outcome" where
  "silent r =
     (case r of
        Exit f w \<Rightarrow> Exit f (quiet w)
      | Return c w \<Rightarrow> Return c (quiet w)
      | Hang \<Rightarrow> Hang)"

text \<open>The entries of a map whose values are strings, in the order of the list.\<close>

definition stringEntries :: "(string \<times> json) list \<Rightarrow> (string \<times> string) list" where
  "stringEntries kvs =
     List.map_filter (\<lambda>(k, j). case j of JString v \<Rightarrow> Some (k, v) | _ \<Rightarrow> None) kvs"

text \<open>The strings of a record are valid UTF-8.\<close>

definition textValue :: "json \<Rightarrow> bool" where
  "textValue j = (case j of JString s \<Rightarrow> validUTF8 s | _ \<Rightarrow> True)"

definition textRecord :: "SSHKeyPairConfig \<Rightarrow> bool" where
  "textRecord k \<longleftrightarrow>
     validUTF8 (Name k) \<and> validUTF8 (PrivateKeyPath k) \<and> validUTF8 (PublicKeyPath k) \<and>
     validUTF8 (SSHKeyPairConfig.SSHConfig k) \<and>
     (case GitConfig k of None \<Rightarrow> True | Some g \<Rightarrow> fmpred (\<lambda>_. textValue) g)"

text \<open>The store a run returns with, and the world it leaves.\<close>

definition returned :: "outcome \<Rightarrow> SSHConfig option" where
  "returned r = (case r of Return c w \<Rightarrow> Some c | _ \<Rightarrow> None)"

definition finalWorld :: "outcome \<Rightarrow> world option" where
  "finalWorld r = (case r of Exit f w \<Rightarrow> Some w | Return c w \<Rightarrow> Some w | Hang \<Rightarrow> None)"

text \<open>The content of the file at a path, and the Git commands run, when a run has
  ended.\<close>

definition fileAfter :: "outcome \<Rightarrow> string \<Rightarrow> string option" where
  "fileAfter r p = (case finalWorld r of None \<Rightarrow> None | Some w \<Rightarrow> files w p)"

definition gitLogAfter :: "outcome \<Rightarrow> string list list option" where
  "gitLogAfter r = (case finalWorld r of None \<Rightarrow> None | Some w \<Rightarrow> Some (git_log w))"

definition storeFileAfter :: "outcome \<Rightarrow> stored option" where
  "storeFileAfter r = (case finalWorld r of None \<Rightarrow> None | Some w \<Rightarrow> store_file w)"

subsection \<open>A concrete machine\<close>

text \<open>A Unix machine on which no call fails, with the home directory
  \<^verbatim>\<open>/home/u\<close>. Its \<open>path_join\<close> puts a slash between the elements, which is what
  \<^verbatim>\<open>filepath.Join\<close> does on the clean paths used here.\<close>

definition unix_join :: "string list \<Rightarrow> string" where
  "unix_join xs = foldr (\<lambda>a b. if b = [] then a else a @ ''/'' @ b) xs []"

definition unix_dir :: "string \<Rightarrow> string" where
  "unix_dir p = rev (tl (dropWhile (\<lambda>c. c \<noteq> CHR ''/'') (rev p)))"

definition unix_env :: env where
  "unix_env =
     \<lparr>goos_windows = False, home_dir = ''/home/u'', path_join = unix_join,
      path_dir = unix_dir, path_abs = Some, stat_fails = (\<lambda>_. False),
      mkdir_fails = (\<lambda>_. False), chmod_fails = (\<lambda>_. False), create_fails = (\<lambda>_. False),
      read_fails = (\<lambda>_. False), write_fails = (\<lambda>_. False), git_fails = (\<lambda>_. False),
      range_order = (\<lambda>ks. ks),
      rsa_generate = Some \<lparr>private_pem = ''PRIVATE'', public_line = Some ''PUBLIC''\<rparr>,
      pem_decodes = (\<lambda>_. True)\<rparr>"

definition no_args :: cmdline where
  "no_args =
     \<lparr>subcommand = None, gen_g = [], imp_i = [], imp_p = [], imp_n = [], imp_c = [],
      imp_git_email = [], imp_git_name = [], sw_i = - 1, sw_s = ''global'', del_i = - 1,
      del_f = False\<rparr>"

definition empty_world :: world where
  "empty_world = \<lparr>files = Map.empty, store_file = None, stdin = [], out = [], git_log = []\<rparr>"

text \<open>Two records whose private keys are in the world \<open>two_keys_world\<close>: \<open>work\<close> has
  Git settings and a fragment, \<open>old\<close> has neither, as a record written by the first
  version of the program (which had no \<^verbatim>\<open>git_config\<close>) is loaded.\<close>

definition work_key :: SSHKeyPairConfig where
  "work_key =
     \<lparr>Name = ''work'', PrivateKeyPath = ''/k/work'', PublicKeyPath = ''/k/work.pub'',
      SSHConfig = ''/k/work.conf'',
      GitConfig = Some (fmupd ''user.name'' (JString ''W'') fmempty)\<rparr>"

definition old_key :: SSHKeyPairConfig where
  "old_key =
     \<lparr>Name = ''old'', PrivateKeyPath = ''/k/old'', PublicKeyPath = ''/k/old.pub'',
      SSHConfig = [], GitConfig = None\<rparr>"

definition two_keys :: SSHConfig where
  "two_keys = (newConfig unix_env)\<lparr>Keys := [work_key, old_key], ActiveKey := 1\<rparr>"

definition two_keys_world :: "string list \<Rightarrow> world" where
  "two_keys_world input =
     \<lparr>files = [''/k/work'' \<mapsto> ''A'', ''/k/old'' \<mapsto> ''B'', ''/k/work.conf'' \<mapsto> ''Host x''],
      store_file = None, stdin = input, out = [], git_log = []\<rparr>"

text \<open>One record, and no active index: the store after \<^verbatim>\<open>gen\<close>, \<^verbatim>\<open>del\<close> and
  \<^verbatim>\<open>gen\<close> on a new machine. The SSH configuration file has content of its own.\<close>

definition lone_key :: SSHConfig where
  "lone_key = (newConfig unix_env)\<lparr>Keys := [old_key], ActiveKey := - 1\<rparr>"

definition lone_key_world :: "string list \<Rightarrow> world" where
  "lone_key_world input =
     \<lparr>files = [''/k/old'' \<mapsto> ''B'', ''/home/u/.ssh/config'' \<mapsto> ''Host y''],
      store_file = None, stdin = input, out = [], git_log = []\<rparr>"

text \<open>The store after \<^verbatim>\<open>gen -g\<close> with a name that is the one byte \<open>FF\<close>, which
  is not valid UTF-8, on a machine without files, and the store a new process loads
  after it was saved.\<close>

definition odd_key :: "string \<Rightarrow> SSHKeyPairConfig" where
  "odd_key name =
     \<lparr>Name = name, PrivateKeyPath = ''/home/u/.gss/'' @ name @ ''.key'',
      PublicKeyPath = ''/home/u/.gss/'' @ name @ ''.key.pub'',
      SSHConfig = [], GitConfig = Some fmempty\<rparr>"

definition odd_store :: SSHConfig where
  "odd_store = (newConfig unix_env)\<lparr>Keys := [odd_key [CHR 0xFF]]\<rparr>"

definition odd_store_loaded :: SSHConfig where
  "odd_store_loaded = (newConfig unix_env)\<lparr>Keys := [odd_key [CHR 0xEF, CHR 0xBF, CHR 0xBD]]\<rparr>"

definition odd_world :: world where
  "odd_world =
     \<lparr>files = [''/home/u/.gss/'' @ [CHR 0xFF] @ ''.key'' \<mapsto> ''PRIVATE'',
               ''/home/u/.gss/'' @ [CHR 0xFF] @ ''.key.pub'' \<mapsto> ''PUBLIC''],
      store_file = Some (Document (marshalConfig odd_store)), stdin = [],
      out = [Generated [CHR 0xFF] (''/home/u/.gss/'' @ [CHR 0xFF] @ ''.key'')
               (''/home/u/.gss/'' @ [CHR 0xFF] @ ''.key.pub'')],
      git_log = []\<rparr>"




section \<open>Properties\<close>

subsection \<open>The world under the small steps\<close>

lemma stdin_emit [simp]: "stdin (emit m w) = stdin w"
  by (simp add: emit_def)

lemma stdin_listKeyPairs [simp]: "stdin (listKeyPairs c w) = stdin w"
  by (simp add: listKeyPairs_def)

lemma files_emit [simp]: "files (emit m w) = files w"
  by (simp add: emit_def)

lemma store_file_emit [simp]: "store_file (emit m w) = store_file w"
  by (simp add: emit_def)

lemma git_log_emit [simp]: "git_log (emit m w) = git_log w"
  by (simp add: emit_def)

lemma files_listKeyPairs [simp]: "files (listKeyPairs c w) = files w"
  by (simp add: listKeyPairs_def)

lemma fst_readLine_cong: "stdin w = stdin w' \<Longrightarrow> fst (readLine w) = fst (readLine w')"
  by (simp add: readLine_def split: list.splits)

lemma stdin_readLine: "stdin (snd (readLine w)) = tl (stdin w)"
  by (simp add: readLine_def split: list.splits)

lemma files_readLine [simp]: "files (snd (readLine w)) = files w"
  by (simp add: readLine_def split: list.splits)

lemma deleteIndex_entered:
  assumes "Keys c \<noteq> []" and "enteredIndex w = Some idx"
  shows "deleteIndex a c w = Inr (idx, snd (readLine (emit DeletePrompt (listKeyPairs c w))))"
proof -
  have "fst (readLine (emit DeletePrompt (listKeyPairs c w))) = fst (readLine w)"
    by (rule fst_readLine_cong) simp
  with assms show ?thesis
    by (simp add: deleteIndex_def indexProvided_def flagsSetAtVisit_def enteredIndex_def
        split_beta)
qed

lemma confirmDelete_yes:
  assumes "del_f a \<or> trimSpace (toLower (fst (readLine w))) \<in> {''y'', ''yes''}"
  shows "fst (confirmDelete a (emit m w))"
proof -
  have "fst (readLine (emit ConfirmPrompt (emit m w))) = fst (readLine w)"
    by (rule fst_readLine_cong) simp
  with assms show ?thesis
    by (auto simp add: confirmDelete_def split_beta Let_def)
qed

lemma files_confirmDelete [simp]: "files (snd (confirmDelete a w)) = files w"
  by (simp add: confirmDelete_def split_beta Let_def)

lemma deleteCmd_confirmed:
  assumes "enteredIndex w = Some idx" and "del_f a \<or> answersYes w"
    and "0 \<le> idx" and "idx < int (length (Keys c))"
  shows "\<exists>w2. files w2 = files w \<and>
           deleteCmd env a c w = Return (fst (removeKey env idx c w2)) (snd (removeKey env idx c w2))"
proof -
  from assms(3,4) have ne: "Keys c \<noteq> []" by auto
  let ?w1 = "snd (readLine (emit DeletePrompt (listKeyPairs c w)))"
  let ?w1' = "emit (SelectedForDeletion (Keys c ! nat idx)) ?w1"
  have di: "deleteIndex a c w = Inr (idx, ?w1)"
    using ne assms(1) by (rule deleteIndex_entered)
  have "stdin ?w1 = stdin (snd (readLine w))"
    by (simp add: stdin_readLine)
  then have "fst (readLine ?w1) = fst (readLine (snd (readLine w)))"
    by (rule fst_readLine_cong)
  with assms(2) have "del_f a \<or> trimSpace (toLower (fst (readLine ?w1))) \<in> {''y'', ''yes''}"
    by (simp add: answersYes_def)
  then have yes: "fst (confirmDelete a ?w1')"
    by (rule confirmDelete_yes)
  have "deleteCmd env a c w =
      Return (fst (removeKey env idx c (snd (confirmDelete a ?w1'))))
        (snd (removeKey env idx c (snd (confirmDelete a ?w1'))))"
    using di yes assms(3,4) by (simp add: deleteCmd_def split_beta)
  moreover have "files (snd (confirmDelete a ?w1')) = files w"
    by simp
  ultimately show ?thesis by blast
qed

lemma Keys_removeKey:
  "Keys (fst (removeKey env idx c w)) = without (nat idx) (Keys c)"
  by (simp add: removeKey_def without_def Let_def split_beta)

lemma ActiveKey_removeKey:
  "ActiveKey (fst (removeKey env idx c w)) =
     (if ActiveKey c = idx then (if without (nat idx) (Keys c) \<noteq> [] then 0 else - 1)
      else if ActiveKey c > idx then ActiveKey c - 1 else ActiveKey c)"
  by (simp add: removeKey_def without_def Let_def split_beta)

lemma paths_removeKey:
  "ConfigPath (fst (removeKey env idx c w)) = ConfigPath c"
  "SSHConfig (fst (removeKey env idx c w)) = SSHConfig c"
  by (simp_all add: removeKey_def Let_def split_beta)

lemma files_removeKey:
  "files (snd (removeKey env idx c w)) =
     (if ActiveKey c = idx \<and> without (nat idx) (Keys c) = [] \<and> \<not> write_fails env (SSHConfig c)
      then (files w)(SSHConfig c \<mapsto> []) else files w)"
  by (auto simp add: removeKey_def without_def Let_def split_beta)

lemma without_nth_below: "i < j \<Longrightarrow> j < length ks \<Longrightarrow> without i ks ! (j - 1) = ks ! j"
  by (cases j) (auto simp add: without_def nth_append min_def)

lemma without_nth_above: "j < i \<Longrightarrow> i < length ks \<Longrightarrow> without i ks ! j = ks ! j"
  by (simp add: without_def nth_append)

lemma length_without: "i < length ks \<Longrightarrow> length (without i ks) = length ks - 1"
  by (simp add: without_def)


lemma removeKey_active:
  assumes "ActiveKey c = idx" and "0 \<le> idx" and "idx < int (length (Keys c))"
  shows "fst (removeKey env idx c w) =
     c\<lparr>Keys := without (nat idx) (Keys c),
       ActiveKey := (if 1 < length (Keys c) then 0 else - 1)\<rparr>"
proof -
  from assms(2,3) have "length (without (nat idx) (Keys c)) = length (Keys c) - 1"
    by (simp add: length_without)
  then have "(0 < length (without (nat idx) (Keys c))) = (1 < length (Keys c))"
    by auto
  then have "(0 < length (take (nat idx) (Keys c) @ drop (nat idx + 1) (Keys c))) = (1 < length (Keys c))"
    by (simp add: without_def)
  with assms(1) show ?thesis
    by (simp add: removeKey_def without_def Let_def split_beta del: length_greater_0_conv)
qed

subsection \<open>Deleting the active record\<close>

text \<open>
  Claim C2. The user enters a valid index \<open>idx\<close>, which is the active index, and the
  deletion is forced or confirmed. Then \<^verbatim>\<open>deleteCmd\<close> returns, the record at \<open>idx\<close>
  is removed from the store, and the active index is \<open>0\<close> when a record remains and
  \<open>-1\<close> (unset) when none does.
\<close>

theorem delete_active:
  assumes "enteredIndex w = Some idx" and "del_f a \<or> answersYes w"
    and "0 \<le> idx" and "idx < int (length (Keys c))" and "ActiveKey c = idx"
  shows "returned (deleteCmd env a c w) =
     Some (c\<lparr>Keys := without (nat idx) (Keys c),
            ActiveKey := (if 1 < length (Keys c) then 0 else - 1)\<rparr>)"
proof -
  from deleteCmd_confirmed [OF assms(1-4)] obtain w2 where
    "deleteCmd env a c w = Return (fst (removeKey env idx c w2)) (snd (removeKey env idx c w2))"
    by blast
  then show ?thesis
    using removeKey_active [OF assms(5,3,4)] by (simp add: returned_def)
qed

lemma atoi_1: "atoi ''1'' = Some 1" "atoi ''0'' = Some 0"
  by (simp_all add: atoi_def digitsVal_def digitVal_def isDigit_def fits_int_def Let_def)

text \<open>Deleting the active record \<open>1\<close> of two leaves the other one, active at \<open>0\<close>.\<close>

theorem delete_active_witness:
  "enteredIndex (two_keys_world [''1'', ''y'']) = Some 1 \<and>
   answersYes (two_keys_world [''1'', ''y'']) \<and>
   returned (deleteCmd unix_env no_args two_keys (two_keys_world [''1'', ''y''])) =
     Some (two_keys\<lparr>Keys := [work_key], ActiveKey := 0\<rparr>)"
proof -
  have e: "enteredIndex (two_keys_world [''1'', ''y'']) = Some 1"
    by (simp add: enteredIndex_def two_keys_world_def readLine_def trimSpace_def isSpace_def
        atoi_def digitsVal_def digitVal_def isDigit_def fits_int_def Let_def)
  have y: "answersYes (two_keys_world [''1'', ''y''])"
    by (simp add: answersYes_def two_keys_world_def readLine_def trimSpace_def isSpace_def
        toLower_def)
  have k: "Keys two_keys = [work_key, old_key]" "ActiveKey two_keys = 1"
    by (simp_all add: two_keys_def)
  show ?thesis
    using e y k
      delete_active [of "two_keys_world [''1'', ''y'']" 1 no_args two_keys unix_env]
    by (simp add: without_def)
qed


subsection \<open>Deleting another record\<close>

text \<open>
  Claim C3. The user enters a valid index \<open>idx\<close> and the deletion is forced or
  confirmed. When \<open>idx\<close> is below the active index, the active index is decremented
  by one and (the active index being one of the store) it points at the same record as
  before. When \<open>idx\<close> is above the active index, the active index is unchanged, and
  so is the record it points at when it is set.
\<close>

theorem delete_other:
  assumes "enteredIndex w = Some idx" and "del_f a \<or> answersYes w"
    and "0 \<le> idx" and "idx < int (length (Keys c))"
  shows "\<exists>c'. returned (deleteCmd env a c w) = Some c' \<and>
     Keys c' = without (nat idx) (Keys c) \<and>
     (idx < ActiveKey c \<longrightarrow>
        ActiveKey c' = ActiveKey c - 1 \<and>
        (ActiveKey c < int (length (Keys c)) \<longrightarrow>
           Keys c' ! nat (ActiveKey c') = Keys c ! nat (ActiveKey c))) \<and>
     (ActiveKey c < idx \<longrightarrow>
        ActiveKey c' = ActiveKey c \<and>
        (0 \<le> ActiveKey c \<longrightarrow> Keys c' ! nat (ActiveKey c') = Keys c ! nat (ActiveKey c)))"
proof -
  from deleteCmd_confirmed [OF assms] obtain w2 where
    r: "deleteCmd env a c w = Return (fst (removeKey env idx c w2)) (snd (removeKey env idx c w2))"
    by blast
  let ?c' = "fst (removeKey env idx c w2)"
  have ks: "Keys ?c' = without (nat idx) (Keys c)"
    by (rule Keys_removeKey)
  have below: "Keys ?c' ! nat (ActiveKey ?c') = Keys c ! nat (ActiveKey c)"
    if "idx < ActiveKey c" and "ActiveKey c < int (length (Keys c))"
  proof -
    from that assms(3) have "nat idx < nat (ActiveKey c)" and "nat (ActiveKey c) < length (Keys c)"
      by auto
    then have "without (nat idx) (Keys c) ! (nat (ActiveKey c) - 1) = Keys c ! nat (ActiveKey c)"
      by (rule without_nth_below)
    moreover from that assms(3) have "nat (ActiveKey c - 1) = nat (ActiveKey c) - 1"
      by auto
    ultimately show ?thesis
      using that by (simp add: ks ActiveKey_removeKey)
  qed
  have above: "Keys ?c' ! nat (ActiveKey ?c') = Keys c ! nat (ActiveKey c)"
    if "ActiveKey c < idx" and "0 \<le> ActiveKey c"
  proof -
    from that assms(4) have "nat (ActiveKey c) < nat idx" and "nat idx < length (Keys c)"
      by auto
    then have "without (nat idx) (Keys c) ! nat (ActiveKey c) = Keys c ! nat (ActiveKey c)"
      by (rule without_nth_above)
    then show ?thesis
      using that by (simp add: ks ActiveKey_removeKey)
  qed
  have "returned (deleteCmd env a c w) = Some ?c'"
    using r by (simp add: returned_def)
  with ks below above show ?thesis
    by (auto simp add: ActiveKey_removeKey)
qed

lemma entered_two_keys_0: "enteredIndex (two_keys_world (''0'' # rest)) = Some 0"
  by (simp add: enteredIndex_def two_keys_world_def readLine_def trimSpace_def isSpace_def
      atoi_def digitsVal_def digitVal_def isDigit_def fits_int_def Let_def)

lemma yes_two_keys: "answersYes (two_keys_world [i, ''y''])"
  by (simp add: answersYes_def two_keys_world_def readLine_def trimSpace_def isSpace_def
      toLower_def)

text \<open>Deleting record \<open>0\<close> of two when record \<open>1\<close> is active: the active index
  becomes \<open>0\<close> and still points at the record \<open>old\<close>.\<close>

theorem delete_other_witness:
  "\<exists>c'. returned (deleteCmd unix_env no_args two_keys (two_keys_world [''0'', ''y''])) = Some c' \<and>
     Keys c' = [old_key] \<and> ActiveKey c' = 0 \<and>
     Keys c' ! nat (ActiveKey c') = Keys two_keys ! nat (ActiveKey two_keys)"
proof -
  have k: "Keys two_keys = [work_key, old_key]" "ActiveKey two_keys = 1"
    by (simp_all add: two_keys_def)
  show ?thesis
    using entered_two_keys_0 [of "[''y'']"] yes_two_keys [of "''0''"] k
      delete_other [of "two_keys_world [''0'', ''y'']" 0 no_args two_keys unix_env]
    by (auto simp add: without_def)
qed

subsection \<open>Deleting and the SSH configuration file\<close>

text \<open>
  Claim C10, amended. The user enters a valid index \<open>idx\<close> and the deletion is forced
  or confirmed. Then \<^verbatim>\<open>deleteCmd\<close> returns, and the files are changed in one case
  only: when the record deleted is the active one and the last one, the SSH
  configuration file is overwritten with empty content, provided the write succeeds.
  In every other case, also when the last record is deleted while no record is active,
  all files are as before.
\<close>

theorem delete_ssh_config:
  assumes "enteredIndex w = Some idx" and "del_f a \<or> answersYes w"
    and "0 \<le> idx" and "idx < int (length (Keys c))"
  shows "\<exists>c' w'. deleteCmd env a c w = Return c' w' \<and>
     files w' =
       (if ActiveKey c = idx \<and> length (Keys c) = 1 \<and> \<not> write_fails env (SSHConfig c)
        then (files w)(SSHConfig c \<mapsto> []) else files w)"
proof -
  from deleteCmd_confirmed [OF assms] obtain w2 where
    f: "files w2 = files w" and
    r: "deleteCmd env a c w = Return (fst (removeKey env idx c w2)) (snd (removeKey env idx c w2))"
    by blast
  from assms(3,4) have "length (without (nat idx) (Keys c)) = length (Keys c) - 1"
    by (simp add: length_without)
  moreover from assms(3,4) have "0 < length (Keys c)" by auto
  ultimately have "(without (nat idx) (Keys c) = []) = (length (Keys c) = 1)"
    by (metis One_nat_def Suc_pred length_0_conv diff_self_eq_0 nat.inject)
  then have "files (snd (removeKey env idx c w2)) =
       (if ActiveKey c = idx \<and> length (Keys c) = 1 \<and> \<not> write_fails env (SSHConfig c)
        then (files w)(SSHConfig c \<mapsto> []) else files w)"
    by (simp add: files_removeKey f)
  with r show ?thesis
    by blast
qed

lemma entered_lone_0: "enteredIndex (lone_key_world (''0'' # rest)) = Some 0"
  by (simp add: enteredIndex_def lone_key_world_def readLine_def trimSpace_def isSpace_def
      atoi_def digitsVal_def digitVal_def isDigit_def fits_int_def Let_def)

lemma yes_lone: "answersYes (lone_key_world [i, ''y''])"
  by (simp add: answersYes_def lone_key_world_def readLine_def trimSpace_def isSpace_def
      toLower_def)

text \<open>Deleting the only record, which is active, empties the SSH configuration
  file.\<close>

theorem delete_ssh_config_witness:
  "\<exists>c' w'. deleteCmd unix_env no_args (lone_key\<lparr>ActiveKey := 0\<rparr>)
            (lone_key_world [''0'', ''y'']) = Return c' w' \<and>
     files w' ''/home/u/.ssh/config'' = Some []"
proof -
  have k: "Keys lone_key = [old_key]" "SSHConfig lone_key = ''/home/u/.ssh/config''"
    by (simp_all add: lone_key_def newConfig_def unix_env_def unix_join_def)
  have nf: "\<not> write_fails unix_env p" for p
    by (simp add: unix_env_def)
  show ?thesis
    using entered_lone_0 [of "[''y'']"] yes_lone [of "''0''"] k nf
      delete_ssh_config [of "lone_key_world [''0'', ''y'']" 0 no_args "lone_key\<lparr>ActiveKey := 0\<rparr>" unix_env]
    by auto
qed

text \<open>
  Claim C10 as stated fails: the store \<open>lone_key\<close> has one record and no active
  index. Deleting the record leaves the store empty and the active index unset, and
  the SSH configuration file keeps its content.
\<close>

theorem delete_last_unset_counterexample:
  "returned (deleteCmd unix_env no_args lone_key (lone_key_world [''0'', ''y''])) =
     Some (lone_key\<lparr>Keys := []\<rparr>) \<and>
   ActiveKey lone_key = - 1 \<and>
   fileAfter (deleteCmd unix_env no_args lone_key (lone_key_world [''0'', ''y'']))
     (SSHConfig lone_key) = Some ''Host y''"
proof -
  have k: "Keys lone_key = [old_key]" "SSHConfig lone_key = ''/home/u/.ssh/config''"
    "ActiveKey lone_key = - 1"
    by (simp_all add: lone_key_def newConfig_def unix_env_def unix_join_def)
  have "Keys lone_key \<noteq> []" by (simp add: k)
  then have di: "deleteIndex no_args lone_key (lone_key_world [''0'', ''y'']) =
      Inr (0, snd (readLine (emit DeletePrompt (listKeyPairs lone_key (lone_key_world [''0'', ''y''])))))"
    using entered_lone_0 by (rule deleteIndex_entered)
  have nf: "\<not> del_f no_args" by (simp add: no_args_def)
  show ?thesis
    using di nf k
    by (simp add: deleteCmd_def confirmDelete_def removeKey_def returned_def finalWorld_def
        fileAfter_def split_beta Let_def readLine_def emit_def listKeyPairs_def
        lone_key_world_def trimSpace_def isSpace_def toLower_def)
qed

subsection \<open>The steps of a switch\<close>

lemma stringEntries_Nil [simp]: "stringEntries [] = []"
  by (simp add: stringEntries_def map_filter_simps)

lemma stringEntries_Cons:
  "stringEntries ((k, j) # kvs) =
     (case j of JString v \<Rightarrow> (k, v) # stringEntries kvs | _ \<Rightarrow> stringEntries kvs)"
  by (simp add: stringEntries_def map_filter_simps split: json.splits)

lemma switchIndex_entered:
  assumes "Keys c \<noteq> []" and "enteredIndex w = Some idx"
  shows "switchIndex a c w = Inr (idx, snd (readLine (emit SwitchPrompt (listKeyPairs c w))))"
proof -
  have "fst (readLine (emit SwitchPrompt (listKeyPairs c w))) = fst (readLine w)"
    by (rule fst_readLine_cong) simp
  with assms show ?thesis
    by (simp add: switchIndex_def indexProvided_def flagsSetAtVisit_def enteredIndex_def
        split_beta)
qed

lemma switchIndex_empty: "Keys c = [] \<Longrightarrow> switchIndex a c w = Inl (NoKeyPairs, w)"
  by (simp add: switchIndex_def indexProvided_def flagsSetAtVisit_def)

lemma git_log_applyGitConfig:
  "git_log (applyGitConfig env scope gf kvs w) =
     git_log w @ map (\<lambda>(k, v). gitArgs scope gf k v) (stringEntries kvs)"
proof (induction kvs arbitrary: w)
  case Nil
  show ?case by simp
next
  case (Cons kv kvs)
  obtain k j where kv: "kv = (k, j)" by (cases kv)
  show ?case
    by (cases j) (simp_all add: kv Cons.IH stringEntries_Cons Let_def emit_def)
qed

lemma files_applyGitConfig [simp]: "files (applyGitConfig env scope gf kvs w) = files w"
proof (induction kvs arbitrary: w)
  case Nil
  show ?case by simp
next
  case (Cons kv kvs)
  obtain k j where kv: "kv = (k, j)" by (cases kv)
  show ?case
    by (cases j) (simp_all add: kv Cons.IH Let_def emit_def)
qed

lemma stdin_applyGitConfig [simp]: "stdin (applyGitConfig env scope gf kvs w) = stdin w"
proof (induction kvs arbitrary: w)
  case Nil
  show ?case by simp
next
  case (Cons kv kvs)
  obtain k j where kv: "kv = (k, j)" by (cases kv)
  show ?case
    by (cases j) (simp_all add: kv Cons.IH Let_def emit_def)
qed

lemma store_file_applyGitConfig [simp]:
  "store_file (applyGitConfig env scope gf kvs w) = store_file w"
proof (induction kvs arbitrary: w)
  case Nil
  show ?case by simp
next
  case (Cons kv kvs)
  obtain k j where kv: "kv = (k, j)" by (cases kv)
  show ?case
    by (cases j) (simp_all add: kv Cons.IH Let_def emit_def)
qed

lemma out_applyGitConfig_prefix:
  "\<exists>ms. out (applyGitConfig env scope gf kvs w) = out w @ ms"
proof (induction kvs arbitrary: w)
  case Nil
  show ?case by simp
next
  case (Cons kv kvs)
  obtain k j where kv: "kv = (k, j)" by (cases kv)
  let ?w = "case j of
          JString v \<Rightarrow>
            (let cmdArgs = gitArgs scope gf k v;
                 w' = w\<lparr>git_log := git_log w @ [cmdArgs]\<rparr>
             in if git_fails env cmdArgs then emit (GitConfigFailed k scope) w'
                else emit (GitConfigSet k v scope) w')
        | _ \<Rightarrow> emit (UnsupportedGitValue k) w"
  have "\<exists>ms. out ?w = out w @ ms"
    by (cases j) (simp_all add: Let_def emit_def)
  then obtain ms where ms: "out ?w = out w @ ms" ..
  from Cons.IH [of ?w] obtain ms' where "out (applyGitConfig env scope gf kvs ?w) = out ?w @ ms'" ..
  with ms have "out (applyGitConfig env scope gf (kv # kvs) w) = out w @ (ms @ ms')"
    by (simp add: kv)
  then show ?case ..
qed

lemma out_applyGitConfig_mono:
  "m \<in> set (out w) \<Longrightarrow> m \<in> set (out (applyGitConfig env scope gf kvs w))"
  using out_applyGitConfig_prefix [of env scope gf kvs w] by auto

lemma out_applyGitConfig_reported:
  assumes "(k, v) \<in> set (stringEntries kvs)"
  shows "(if git_fails env (gitArgs scope gf k v) then GitConfigFailed k scope
          else GitConfigSet k v scope) \<in> set (out (applyGitConfig env scope gf kvs w))"
  using assms
proof (induction kvs arbitrary: w)
  case Nil
  then show ?case by simp
next
  case (Cons kv kvs)
  obtain k' j where kv: "kv = (k', j)" by (cases kv)
  show ?case
  proof (cases "(k, v) \<in> set (stringEntries kvs)")
    case True
    then show ?thesis
      using Cons.IH by (simp add: kv)
  next
    case False
    with Cons.prems have j: "j = JString v" and k: "k' = k"
      by (auto simp add: kv stringEntries_Cons split: json.splits)
    let ?m = "if git_fails env (gitArgs scope gf k v) then GitConfigFailed k scope
          else GitConfigSet k v scope"
    let ?w = "emit ?m (w\<lparr>git_log := git_log w @ [gitArgs scope gf k v]\<rparr>)"
    have "?m \<in> set (out ?w)"
      by (simp add: emit_def)
    then have "?m \<in> set (out (applyGitConfig env scope gf kvs ?w))"
      by (rule out_applyGitConfig_mono)
    moreover have "applyGitConfig env scope gf (kv # kvs) w = applyGitConfig env scope gf kvs ?w"
      by (simp add: kv j k Let_def)
    ultimately show ?thesis by simp
  qed
qed

lemma applyGitConfig_silent:
  assumes "w\<lparr>out := []\<rparr> = w'\<lparr>out := []\<rparr>"
  shows "(applyGitConfig (env\<lparr>git_fails := g\<rparr>) scope gf kvs w)\<lparr>out := []\<rparr> =
         (applyGitConfig env scope gf kvs w')\<lparr>out := []\<rparr>"
  using assms
proof (induction kvs arbitrary: w w')
  case Nil
  then show ?case by simp
next
  case (Cons kv kvs)
  obtain k j where kv: "kv = (k, j)" by (cases kv)
  let ?step = "\<lambda>f w. case j of
          JString v \<Rightarrow>
            (let cmdArgs = gitArgs scope gf k v;
                 w' = w\<lparr>git_log := git_log w @ [cmdArgs]\<rparr>
             in if f cmdArgs then emit (GitConfigFailed k scope) w'
                else emit (GitConfigSet k v scope) w')
        | _ \<Rightarrow> emit (UnsupportedGitValue k) w"
  from Cons.prems have eqs: "files w = files w'" "store_file w = store_file w'"
    "stdin w = stdin w'" "git_log w = git_log w'"
    by (cases w; cases w'; simp)+
  have "(?step g w)\<lparr>out := []\<rparr> = (?step (git_fails env) w')\<lparr>out := []\<rparr>"
    by (cases j) (simp_all add: Let_def emit_def eqs world.equality)
  then have "(applyGitConfig (env\<lparr>git_fails := g\<rparr>) scope gf kvs (?step g w))\<lparr>out := []\<rparr> =
         (applyGitConfig env scope gf kvs (?step (git_fails env) w'))\<lparr>out := []\<rparr>"
    by (rule Cons.IH)
  then show ?case
    by (simp add: kv cong: json.case_cong)
qed


lemma quiet_emit [simp]: "quiet (emit m w) = quiet w"
  by (simp add: quiet_def emit_def)

lemma quiet_readLine: "quiet w = quiet w' \<Longrightarrow> quiet (snd (readLine w)) = quiet (snd (readLine w'))"
  by (cases w; cases w') (simp add: quiet_def readLine_def split: list.splits)

lemma quiet_switchFinish:
  "quiet w = quiet w' \<Longrightarrow>
   quiet (switchFinish (env\<lparr>git_fails := g\<rparr>) c key idx w) = quiet (switchFinish env c key idx w')"
proof -
  assume q: "quiet w = quiet w'"
  then have "quiet (emit m w) = quiet (emit m w')" for m
    by simp
  then have "quiet (snd (readLine (emit m (emit m' w)))) = quiet (snd (readLine (emit m (emit m' w'))))"
    for m m'
    by (intro quiet_readLine) simp
  with q show ?thesis
    by (simp add: switchFinish_def Let_def)
qed

lemma quiet_gitConfigUpdate:
  "quiet (snd (gitConfigUpdate (env\<lparr>git_fails := g\<rparr>) scope gf n c w)) =
   quiet (snd (gitConfigUpdate env scope gf n c w))"
proof (cases "GitConfig (Keys c ! n)")
  case None
  then show ?thesis by (simp add: gitConfigUpdate_def)
next
  case (Some m)
  have "rangeMap (env\<lparr>git_fails := g\<rparr>) m' = rangeMap env m'" for m'
    by (simp add: rangeMap_def)
  moreover have "quiet (applyGitConfig (env\<lparr>git_fails := g\<rparr>) scope gf kvs w) =
      quiet (applyGitConfig env scope gf kvs w)" for kvs
    unfolding quiet_def by (rule applyGitConfig_silent) simp
  ultimately show ?thesis
    using Some by (simp add: gitConfigUpdate_def Let_def)
qed

lemma fst_gitConfigUpdate_git_fails:
  "fst (gitConfigUpdate (env\<lparr>git_fails := g\<rparr>) scope gf n c w) =
   fst (gitConfigUpdate env scope gf n c w)"
  by (simp add: gitConfigUpdate_def Let_def split: option.splits)

lemma gitScope_git_fails: "gitScope (env\<lparr>git_fails := g\<rparr>) scope w = gitScope env scope w"
  by (simp add: gitScope_def)

lemma sshConfigContent_git_fails:
  "sshConfigContent (env\<lparr>git_fails := g\<rparr>) key w = sshConfigContent env key w"
  by (auto simp add: sshConfigContent_def Let_def split: option.splits)

lemma writeSSHConfig_git_fails:
  "writeSSHConfig (env\<lparr>git_fails := g\<rparr>) c key w = writeSSHConfig env c key w"
proof -
  have sel: "goos_windows (env\<lparr>git_fails := g\<rparr>) = goos_windows env"
    "chmod_fails (env\<lparr>git_fails := g\<rparr>) = chmod_fails env"
    "mkdir_fails (env\<lparr>git_fails := g\<rparr>) = mkdir_fails env"
    "path_dir (env\<lparr>git_fails := g\<rparr>) = path_dir env"
    "write_fails (env\<lparr>git_fails := g\<rparr>) = write_fails env"
    by simp_all
  show ?thesis
    unfolding writeSSHConfig_def sshConfigContent_git_fails sel by (rule refl)
qed

lemma switchTo_Inr:
  assumes "checkIndex idx c = Inr c1" and "writeSSHConfig env c1 (Keys c1 ! nat idx) w = Inr w4"
  shows "switchTo env scope idx c w =
     Return (fst (gitConfigUpdate env scope (fst (gitScope env scope w4)) (nat idx) c1
                    (snd (gitScope env scope w4))))
       (switchFinish env c1 (Keys c1 ! nat idx) idx
          (snd (gitConfigUpdate env scope (fst (gitScope env scope w4)) (nat idx) c1
                    (snd (gitScope env scope w4)))))"
  by (simp add: switchTo_def assms split_beta)

lemma switchTo_Inl:
  assumes "checkIndex idx c = Inr c1" and "writeSSHConfig env c1 (Keys c1 ! nat idx) w = Inl (f, w')"
  shows "switchTo env scope idx c w = Exit f w'"
  by (simp add: switchTo_def assms)

lemma silent_switchTo:
  "silent (switchTo (env\<lparr>git_fails := g\<rparr>) scope idx c w) = silent (switchTo env scope idx c w)"
proof (cases "checkIndex idx c")
  case (Inl f)
  then show ?thesis by (simp add: switchTo_def)
next
  case c1: (Inr c1)
  show ?thesis
  proof (cases "writeSSHConfig env c1 (Keys c1 ! nat idx) w")
    case (Inl fw)
    obtain f w' where "fw = (f, w')" by (cases fw)
    with Inl have l: "writeSSHConfig env c1 (Keys c1 ! nat idx) w = Inl (f, w')" by simp
    then have "writeSSHConfig (env\<lparr>git_fails := g\<rparr>) c1 (Keys c1 ! nat idx) w = Inl (f, w')"
      by (simp add: writeSSHConfig_git_fails)
    with c1 l show ?thesis
      by (simp add: switchTo_Inl)
  next
    case (Inr w4)
    then have r: "writeSSHConfig (env\<lparr>git_fails := g\<rparr>) c1 (Keys c1 ! nat idx) w = Inr w4"
      by (simp add: writeSSHConfig_git_fails)
    have "quiet (switchFinish (env\<lparr>git_fails := g\<rparr>) c1 key idx
        (snd (gitConfigUpdate (env\<lparr>git_fails := g\<rparr>) scope gf n c1 w'))) =
      quiet (switchFinish env c1 key idx (snd (gitConfigUpdate env scope gf n c1 w')))"
      for key gf n w'
      by (rule quiet_switchFinish) (rule quiet_gitConfigUpdate)
    then show ?thesis
      unfolding switchTo_Inr [OF c1 Inr] switchTo_Inr [OF c1 r]
      by (simp add: silent_def gitScope_git_fails fst_gitConfigUpdate_git_fails)
  qed
qed


lemma store_file_readLine [simp]: "store_file (snd (readLine w)) = store_file w"
  by (simp add: readLine_def split: list.splits)

lemma git_log_readLine [simp]: "git_log (snd (readLine w)) = git_log w"
  by (simp add: readLine_def split: list.splits)

lemma out_readLine [simp]: "out (snd (readLine w)) = out w"
  by (simp add: readLine_def split: list.splits)

lemma store_file_listKeyPairs [simp]: "store_file (listKeyPairs c w) = store_file w"
  by (simp add: listKeyPairs_def)

lemma git_log_listKeyPairs [simp]: "git_log (listKeyPairs c w) = git_log w"
  by (simp add: listKeyPairs_def)

lemma sshConfigContent_files:
  assumes "files w' = files w"
  shows "sshConfigContent env key w' = sshConfigContent env key w"
  unfolding sshConfigContent_def file_exists_def assms by (rule refl)

lemma sshConfigContent_ready:
  assumes "switchReady env c w key"
  shows "sshConfigContent env key w =
     Inr (if SSHKeyPairConfig.SSHConfig key = [] then ''IdentityFile '' @ PrivateKeyPath key
          else ''IdentityFile '' @ PrivateKeyPath key @ [CHR 0x0A] @
               the (files w (the (path_abs env (SSHKeyPairConfig.SSHConfig key)))))"
  using assms
  by (auto simp add: switchReady_def sshConfigContent_def Let_def split: option.splits if_splits)

lemma sshConfigContent_not_ready:
  assumes "\<not> (if SSHKeyPairConfig.SSHConfig key = [] then True
      else (case path_abs env (SSHKeyPairConfig.SSHConfig key) of
              None \<Rightarrow> False
            | Some p \<Rightarrow> file_exists w p \<and> \<not> read_fails env p))"
  shows "\<exists>f. sshConfigContent env key w = Inl f \<and>
           f \<in> {AbsSSHConfigFailed, SSHConfigReadFailed} \<union> range SSHConfigNotFound"
  using assms
  by (auto simp add: sshConfigContent_def Let_def split: option.splits if_splits)

lemma writeSSHConfig_ready:
  assumes "switchReady env c w key"
  shows "\<exists>w4. writeSSHConfig env c key w = Inr w4 \<and>
     files w4 = (files w)(SSHConfig c \<mapsto>
        (if SSHKeyPairConfig.SSHConfig key = [] then ''IdentityFile '' @ PrivateKeyPath key
         else ''IdentityFile '' @ PrivateKeyPath key @ [CHR 0x0A] @
              the (files w (the (path_abs env (SSHKeyPairConfig.SSHConfig key)))))) \<and>
     stdin w4 = stdin w \<and> git_log w4 = git_log w \<and> store_file w4 = store_file w"
proof -
  let ?content = "if SSHKeyPairConfig.SSHConfig key = [] then ''IdentityFile '' @ PrivateKeyPath key
         else ''IdentityFile '' @ PrivateKeyPath key @ [CHR 0x0A] @
              the (files w (the (path_abs env (SSHKeyPairConfig.SSHConfig key))))"
  have cont: "sshConfigContent env key w' = Inr ?content" if "files w' = files w" for w'
    using sshConfigContent_files [OF that] sshConfigContent_ready [OF assms] by simp
  from assms have r: "file_exists w (PrivateKeyPath key)"
    "goos_windows env \<or> \<not> chmod_fails env (PrivateKeyPath key)"
    "\<not> mkdir_fails env (path_dir env (SSHConfig c))" "\<not> write_fails env (SSHConfig c)"
    by (simp_all add: switchReady_def)
  show ?thesis
    using r by (auto simp add: writeSSHConfig_def Let_def cont)
qed

lemma writeSSHConfig_not_ready:
  assumes "\<not> switchReady env c w key"
  shows "\<exists>f w'. writeSSHConfig env c key w = Inl (f, w') \<and>
     files w' = files w \<and> stdin w' = stdin w \<and> git_log w' = git_log w \<and>
     store_file w' = store_file w \<and> f \<noteq> NoKeyPairs \<and> f \<notin> range (\<lambda>(i, n). InvalidIndex i n)"
proof (cases "if SSHKeyPairConfig.SSHConfig key = [] then True
      else (case path_abs env (SSHKeyPairConfig.SSHConfig key) of
              None \<Rightarrow> False
            | Some p \<Rightarrow> file_exists w p \<and> \<not> read_fails env p)")
  case True
  then obtain content where "sshConfigContent env key w = Inr content"
    by (auto simp add: sshConfigContent_def Let_def split: option.splits if_splits)
  then have cont: "sshConfigContent env key w' = Inr content" if "files w' = files w" for w'
    using sshConfigContent_files [OF that] by simp
  from assms True have "\<not> file_exists w (PrivateKeyPath key) \<or>
    (\<not> goos_windows env \<and> chmod_fails env (PrivateKeyPath key)) \<or>
    mkdir_fails env (path_dir env (SSHConfig c)) \<or> write_fails env (SSHConfig c)"
    unfolding switchReady_def by blast
  then show ?thesis
    by (auto simp add: writeSSHConfig_def Let_def cont)
next
  case False
  from sshConfigContent_not_ready [OF False] obtain f where
    f: "sshConfigContent env key w = Inl f"
      "f \<in> {AbsSSHConfigFailed, SSHConfigReadFailed} \<union> range SSHConfigNotFound"
    by blast
  then have cont: "sshConfigContent env key w' = Inl f" if "files w' = files w" for w'
    using sshConfigContent_files [OF that] by simp
  from f(2) have "f \<noteq> NoKeyPairs \<and> f \<notin> range (\<lambda>(i, n). InvalidIndex i n)"
    by auto
  then show ?thesis
    by (auto simp add: writeSSHConfig_def Let_def cont)
qed


lemma gitScope_world [simp]:
  "files (snd (gitScope env scope w)) = files w"
  "stdin (snd (gitScope env scope w)) = stdin w"
  "git_log (snd (gitScope env scope w)) = git_log w"
  "store_file (snd (gitScope env scope w)) = store_file w"
  by (simp_all add: gitScope_def Let_def)

lemma fst_gitScope: "fst (gitScope env scope w') = fst (gitScope env scope w)"
  by (simp add: gitScope_def Let_def)

lemma fst_gitConfigUpdate:
  "fst (gitConfigUpdate env scope gf n c w) =
     (case GitConfig (Keys c ! n) of
        None \<Rightarrow> c
      | Some m \<Rightarrow>
          c\<lparr>Keys := (Keys c)[n := (Keys c ! n)
                \<lparr>GitConfig := Some (fmupd ''core.sshCommand'' (JString (sshCommand c)) m)\<rparr>]\<rparr>)"
  by (simp add: gitConfigUpdate_def Let_def split: option.splits)

lemma git_log_gitConfigUpdate:
  "git_log (snd (gitConfigUpdate env scope gf n c w)) =
     git_log w @
     (case GitConfig (Keys c ! n) of
        None \<Rightarrow> []
      | Some m \<Rightarrow>
          map (\<lambda>(k, v). gitArgs scope gf k v)
            (stringEntries (rangeMap env (fmupd ''core.sshCommand'' (JString (sshCommand c)) m))))"
  by (simp add: gitConfigUpdate_def Let_def git_log_applyGitConfig split: option.splits)

lemma gitConfigUpdate_world [simp]:
  "files (snd (gitConfigUpdate env scope gf n c w)) = files w"
  "stdin (snd (gitConfigUpdate env scope gf n c w)) = stdin w"
  "store_file (snd (gitConfigUpdate env scope gf n c w)) = store_file w"
  by (simp_all add: gitConfigUpdate_def Let_def split: option.splits)

lemma out_gitConfigUpdate_reported:
  assumes "GitConfig (Keys c ! n) = Some m"
    and "(k, v) \<in> set (stringEntries
           (rangeMap env (fmupd ''core.sshCommand'' (JString (sshCommand c)) m)))"
  shows "(if git_fails env (gitArgs scope gf k v) then GitConfigFailed k scope
          else GitConfigSet k v scope) \<in> set (out (snd (gitConfigUpdate env scope gf n c w)))"
  using out_applyGitConfig_reported [OF assms(2), of env scope gf w] assms(1)
  by (simp add: gitConfigUpdate_def Let_def emit_def)

lemma switchFinish_world [simp]:
  "files (switchFinish env c key idx w) = files w"
  "git_log (switchFinish env c key idx w) = git_log w"
  "store_file (switchFinish env c key idx w) = store_file w"
  by (simp_all add: switchFinish_def Let_def)

lemma out_switchFinish: "m \<in> set (out w) \<Longrightarrow> m \<in> set (out (switchFinish env c key idx w))"
  by (simp add: switchFinish_def Let_def emit_def)

lemma switchReady_files:
  assumes "files w' = files w"
  shows "switchReady env c w' key = switchReady env c w key"
  unfolding switchReady_def file_exists_def assms by (rule refl)

lemma switchReady_active: "switchReady env (c\<lparr>ActiveKey := i\<rparr>) w key = switchReady env c w key"
  by (simp add: switchReady_def)

lemma checkIndex_valid:
  "0 \<le> idx \<Longrightarrow> idx < int (length (Keys c)) \<Longrightarrow> checkIndex idx c = Inr (c\<lparr>ActiveKey := idx\<rparr>)"
  by (simp add: checkIndex_def)

lemma checkIndex_invalid:
  "idx < 0 \<or> int (length (Keys c)) \<le> idx \<Longrightarrow>
   checkIndex idx c = Inl (InvalidIndex idx (int (length (Keys c)) - 1))"
  by (auto simp add: checkIndex_def)

text \<open>The world in which \<^verbatim>\<open>switchCmd\<close> starts the switch, after the prompt.\<close>

lemma switchCmd_entered:
  assumes "Keys c \<noteq> []" and "enteredIndex w = Some idx"
  shows "\<exists>wp. files wp = files w \<and> store_file wp = store_file w \<and> git_log wp = git_log w \<and>
           switchCmd env a c w = switchTo env (sw_s a) idx c wp"
proof -
  let ?wp = "snd (readLine (emit SwitchPrompt (listKeyPairs c w)))"
  have "switchCmd env a c w = switchTo env (sw_s a) idx c ?wp"
    using switchIndex_entered [OF assms] by (simp add: switchCmd_def)
  moreover have "files ?wp = files w" "store_file ?wp = store_file w" "git_log ?wp = git_log w"
    by simp_all
  ultimately show ?thesis by blast
qed

lemma switchTo_ready:
  assumes "0 \<le> idx" and "idx < int (length (Keys c))"
    and "switchReady env c w (Keys c ! nat idx)"
  shows "\<exists>w5 c' w6.
     switchTo env scope idx c w = Return c' (switchFinish env (c\<lparr>ActiveKey := idx\<rparr>) (Keys c ! nat idx) idx w6) \<and>
     (c', w6) = gitConfigUpdate env scope (fst (gitScope env scope w)) (nat idx) (c\<lparr>ActiveKey := idx\<rparr>) w5 \<and>
     files w5 = (files w)(SSHConfig c \<mapsto>
        (if SSHKeyPairConfig.SSHConfig (Keys c ! nat idx) = []
         then ''IdentityFile '' @ PrivateKeyPath (Keys c ! nat idx)
         else ''IdentityFile '' @ PrivateKeyPath (Keys c ! nat idx) @ [CHR 0x0A] @
              the (files w (the (path_abs env (SSHKeyPairConfig.SSHConfig (Keys c ! nat idx))))))) \<and>
     git_log w5 = git_log w \<and> store_file w5 = store_file w"
proof -
  let ?c1 = "c\<lparr>ActiveKey := idx\<rparr>"
  let ?key = "Keys c ! nat idx"
  have ci: "checkIndex idx c = Inr ?c1"
    using assms(1,2) by (rule checkIndex_valid)
  have "switchReady env ?c1 w ?key"
    using assms(3) by (simp add: switchReady_active)
  from writeSSHConfig_ready [OF this] obtain w4 where
    w4: "writeSSHConfig env ?c1 (Keys ?c1 ! nat idx) w = Inr w4"
    and f4: "files w4 = (files w)(SSHConfig c \<mapsto>
        (if SSHKeyPairConfig.SSHConfig ?key = [] then ''IdentityFile '' @ PrivateKeyPath ?key
         else ''IdentityFile '' @ PrivateKeyPath ?key @ [CHR 0x0A] @
              the (files w (the (path_abs env (SSHKeyPairConfig.SSHConfig ?key))))))"
    and o4: "git_log w4 = git_log w" "store_file w4 = store_file w"
    by auto
  let ?w5 = "snd (gitScope env scope w4)"
  let ?r = "gitConfigUpdate env scope (fst (gitScope env scope w)) (nat idx) ?c1 ?w5"
  have "switchTo env scope idx c w = Return (fst ?r) (switchFinish env ?c1 ?key idx (snd ?r))"
    using switchTo_Inr [OF ci w4, of scope] fst_gitScope [of env scope w4 w] by simp
  moreover have "(fst ?r, snd ?r) = ?r" by simp
  moreover have "files ?w5 = files w4" "git_log ?w5 = git_log w" "store_file ?w5 = store_file w"
    using o4 by simp_all
  ultimately show ?thesis
    using f4 by metis
qed

lemma switchTo_not_ready:
  assumes "0 \<le> idx" and "idx < int (length (Keys c))"
    and "\<not> switchReady env c w (Keys c ! nat idx)"
  shows "\<exists>f w'. switchTo env scope idx c w = Exit f w' \<and>
     files w' = files w \<and> git_log w' = git_log w \<and> store_file w' = store_file w \<and>
     f \<noteq> NoKeyPairs \<and> f \<notin> range (\<lambda>(i, n). InvalidIndex i n)"
proof -
  let ?c1 = "c\<lparr>ActiveKey := idx\<rparr>"
  have ci: "checkIndex idx c = Inr ?c1"
    using assms(1,2) by (rule checkIndex_valid)
  have "\<not> switchReady env ?c1 w (Keys ?c1 ! nat idx)"
    using assms(3) by (simp add: switchReady_active)
  from writeSSHConfig_not_ready [OF this] obtain f w' where
    "writeSSHConfig env ?c1 (Keys ?c1 ! nat idx) w = Inl (f, w')"
    "files w' = files w" "git_log w' = git_log w" "store_file w' = store_file w"
    "f \<noteq> NoKeyPairs" "f \<notin> range (\<lambda>(i, n). InvalidIndex i n)"
    by blast
  then show ?thesis
    using switchTo_Inl [OF ci, of env w f w' scope] by blast
qed


subsection \<open>The check of the index in a switch\<close>


subsection \<open>The SSH configuration file after a switch\<close>


subsection \<open>The entries of a map\<close>

lemma in_stringEntries: "(k, v) \<in> set (stringEntries kvs) \<longleftrightarrow> (k, JString v) \<in> set kvs"
proof (induction kvs)
  case Nil
  show ?case by simp
next
  case (Cons kv kvs)
  obtain k' j where kv: "kv = (k', j)" by (cases kv)
  show ?case
    by (cases j) (auto simp add: kv stringEntries_Cons Cons.IH)
qed

lemma set_map_filter_Pair:
  "set (List.map_filter (\<lambda>k. map_option (Pair k) (f k)) ks) = {(k, j). k \<in> set ks \<and> f k = Some j}"
proof (induction ks)
  case Nil
  show ?case by simp
next
  case (Cons k ks)
  show ?case
    by (cases "f k") (auto simp add: Cons.IH)
qed

lemma set_rangeMap:
  assumes "set (range_order env (sorted_list_of_fset (fmdom m))) = fset (fmdom m)"
  shows "set (rangeMap env m) = {(k, j). fmlookup m k = Some j}"
proof -
  have "set (rangeMap env m) =
      {(k, j). k \<in> set (range_order env (sorted_list_of_fset (fmdom m))) \<and> fmlookup m k = Some j}"
    by (simp add: rangeMap_def set_map_filter_Pair)
  also have "\<dots> = {(k, j). fmlookup m k = Some j}"
    using assms by (auto intro: fmdomI)
  finally show ?thesis .
qed

subsection \<open>The Git settings in a switch\<close>

text \<open>
  Claim C7, amended. The user enters a valid index and nothing stops the switch. When
  the map of Git settings of the record is present, empty or not, the key
  \<^verbatim>\<open>core.sshCommand\<close> is set in it to \<^verbatim>\<open>ssh -F\<close> and the path of the SSH
  configuration file of the store with every backslash replaced by a slash; the record
  in the store that is returned holds the new map; and the Git commands run are, in
  the order of the iteration, one \<^verbatim>\<open>git config\<close> for each entry of the new map whose
  value is a string, so that every such entry is applied when the iteration visits all
  keys. When the map is absent (\<^verbatim>\<open>nil\<close>), the record is left as it is, no Git
  command is run and the program prints that no Git configuration is defined.
\<close>

theorem switch_git_settings:
  assumes "enteredIndex w = Some idx" and "0 \<le> idx" and "idx < int (length (Keys c))"
    and "switchReady env c w (Keys c ! nat idx)"
  shows "\<exists>c' w'. switchCmd env a c w = Return c' w' \<and>
     (case GitConfig (Keys c ! nat idx) of
        None \<Rightarrow> c' = c\<lparr>ActiveKey := idx\<rparr> \<and> git_log w' = git_log w \<and> NoGitConfig \<in> set (out w')
      | Some m \<Rightarrow>
          (let m' = fmupd ''core.sshCommand'' (JString (''ssh -F '' @ slashes (SSHConfig c))) m in
           c' = c\<lparr>ActiveKey := idx,
                  Keys := (Keys c)[nat idx := (Keys c ! nat idx)\<lparr>GitConfig := Some m'\<rparr>]\<rparr> \<and>
           git_log w' = git_log w @
             map (\<lambda>(k, v). gitArgs (sw_s a) (fst (gitScope env (sw_s a) w)) k v)
               (stringEntries (rangeMap env m')) \<and>
           (set (range_order env (sorted_list_of_fset (fmdom m'))) = fset (fmdom m') \<longrightarrow>
              (\<forall>k v. fmlookup m' k = Some (JString v) \<longrightarrow>
                 gitArgs (sw_s a) (fst (gitScope env (sw_s a) w)) k v \<in> set (git_log w')))))"
proof -
  let ?key = "Keys c ! nat idx"
  let ?c1 = "c\<lparr>ActiveKey := idx\<rparr>"
  let ?gf = "fst (gitScope env (sw_s a) w)"
  from assms have ne: "Keys c \<noteq> []" by auto
  from switchCmd_entered [OF ne assms(1), of env a] obtain wp where
    wp: "files wp = files w" "git_log wp = git_log w"
    "switchCmd env a c w = switchTo env (sw_s a) idx c wp"
    by blast
  have "switchReady env c wp ?key"
    using assms(4) by (simp add: switchReady_files [OF wp(1)])
  from switchTo_ready [OF assms(2,3) this, of "sw_s a"] obtain w5 c' w6 where
    r: "switchTo env (sw_s a) idx c wp = Return c' (switchFinish env ?c1 ?key idx w6)"
    and g: "(c', w6) = gitConfigUpdate env (sw_s a) (fst (gitScope env (sw_s a) wp)) (nat idx) ?c1 w5"
    and l: "git_log w5 = git_log wp"
    by blast
  have gf: "fst (gitScope env (sw_s a) wp) = ?gf"
    by (rule fst_gitScope)
  from g have c': "c' = fst (gitConfigUpdate env (sw_s a) ?gf (nat idx) ?c1 w5)"
    and w6: "w6 = snd (gitConfigUpdate env (sw_s a) ?gf (nat idx) ?c1 w5)"
    unfolding gf by (metis fst_conv, metis snd_conv)
  let ?w' = "switchFinish env ?c1 ?key idx w6"
  have ret: "switchCmd env a c w = Return c' ?w'"
    using r wp(3) by simp
  have key1: "Keys ?c1 ! nat idx = ?key" by simp
  show ?thesis
  proof (cases "GitConfig ?key")
    case None
    have "c' = ?c1"
      using None by (simp add: c' fst_gitConfigUpdate)
    moreover have "git_log ?w' = git_log w"
      using None by (simp add: w6 git_log_gitConfigUpdate l wp(2))
    moreover have "NoGitConfig \<in> set (out w6)"
      using None by (simp add: w6 gitConfigUpdate_def emit_def)
    then have "NoGitConfig \<in> set (out ?w')"
      by (rule out_switchFinish)
    ultimately show ?thesis
      using ret None by simp
  next
    case (Some m)
    let ?m' = "fmupd ''core.sshCommand'' (JString (''ssh -F '' @ slashes (SSHConfig c))) m"
    have sc: "sshCommand ?c1 = ''ssh -F '' @ slashes (SSHConfig c)"
      by (simp add: sshCommand_def)
    have 1: "c' = c\<lparr>ActiveKey := idx,
                  Keys := (Keys c)[nat idx := ?key\<lparr>GitConfig := Some ?m'\<rparr>]\<rparr>"
      using Some by (simp add: c' fst_gitConfigUpdate sc)
    have 2: "git_log ?w' = git_log w @
             map (\<lambda>(k, v). gitArgs (sw_s a) ?gf k v) (stringEntries (rangeMap env ?m'))"
      using Some by (simp add: w6 git_log_gitConfigUpdate l wp(2) sc)
    have 3: "gitArgs (sw_s a) ?gf k v \<in> set (git_log ?w')"
      if "set (range_order env (sorted_list_of_fset (fmdom ?m'))) = fset (fmdom ?m')"
        and "fmlookup ?m' k = Some (JString v)" for k v
    proof -
      from that have "(k, JString v) \<in> set (rangeMap env ?m')"
        by (simp add: set_rangeMap)
      then have "(k, v) \<in> set (stringEntries (rangeMap env ?m'))"
        by (simp add: in_stringEntries)
      then have "(\<lambda>(k, v). gitArgs (sw_s a) ?gf k v) (k, v)
          \<in> (\<lambda>(k, v). gitArgs (sw_s a) ?gf k v) ` set (stringEntries (rangeMap env ?m'))"
        by (rule imageI)
      then show ?thesis
        unfolding 2 by simp
    qed
    have "let m' = ?m' in
           c' = c\<lparr>ActiveKey := idx,
                  Keys := (Keys c)[nat idx := (Keys c ! nat idx)\<lparr>GitConfig := Some m'\<rparr>]\<rparr> \<and>
           git_log ?w' = git_log w @
             map (\<lambda>(k, v). gitArgs (sw_s a) (fst (gitScope env (sw_s a) w)) k v)
               (stringEntries (rangeMap env m')) \<and>
           (set (range_order env (sorted_list_of_fset (fmdom m'))) = fset (fmdom m') \<longrightarrow>
              (\<forall>k v. fmlookup m' k = Some (JString v) \<longrightarrow>
                 gitArgs (sw_s a) (fst (gitScope env (sw_s a) w)) k v \<in> set (git_log ?w')))"
      unfolding Let_def using 1 2 3 by blast
    then show ?thesis
      using ret unfolding Some option.case by blast
  qed
qed

subsection \<open>Git commands that fail\<close>

lemma silent_switchCmd:
  "silent (switchCmd (env\<lparr>git_fails := g\<rparr>) a c w) = silent (switchCmd env a c w)"
proof (cases "switchIndex a c w")
  case (Inl fw)
  then show ?thesis
    by (simp add: switchCmd_def split_beta)
next
  case (Inr iw)
  then show ?thesis
    by (simp add: switchCmd_def split_beta silent_switchTo)
qed

lemma switchCmd_Return:
  assumes "switchCmd env a c w = Return c' w'" and "enteredIndex w = Some idx"
  shows "0 \<le> idx \<and> idx < int (length (Keys c)) \<and> switchReady env c w (Keys c ! nat idx)"
proof -
  have ne: "Keys c \<noteq> []"
    using assms(1) by (auto simp add: switchCmd_def switchIndex_empty)
  from switchCmd_entered [OF ne assms(2), of env a] obtain wp where
    wp: "files wp = files w" "switchCmd env a c w = switchTo env (sw_s a) idx c wp"
    by blast
  have valid: "0 \<le> idx \<and> idx < int (length (Keys c))"
  proof (rule ccontr)
    assume "\<not> ?thesis"
    then have "checkIndex idx c = Inl (InvalidIndex idx (int (length (Keys c)) - 1))"
      by (auto simp add: checkIndex_invalid)
    with wp(2) assms(1) show False
      by (simp add: switchTo_def)
  qed
  moreover have "switchReady env c w (Keys c ! nat idx)"
  proof (rule ccontr)
    assume "\<not> ?thesis"
    then have "\<not> switchReady env c wp (Keys c ! nat idx)"
      by (simp add: switchReady_files [OF wp(1)])
    with valid switchTo_not_ready [of idx c env wp "sw_s a"] wp(2) assms(1) show False
      by auto
  qed
  ultimately show ?thesis by simp
qed

lemma switchCmd_shape:
  assumes "enteredIndex w = Some idx" and "0 \<le> idx" and "idx < int (length (Keys c))"
    and "switchReady env c w (Keys c ! nat idx)"
  shows "\<exists>w5. git_log w5 = git_log w \<and>
     switchCmd env a c w =
       Return
         (fst (gitConfigUpdate env (sw_s a) (fst (gitScope env (sw_s a) w)) (nat idx)
            (c\<lparr>ActiveKey := idx\<rparr>) w5))
         (switchFinish env (c\<lparr>ActiveKey := idx\<rparr>) (Keys c ! nat idx) idx
            (snd (gitConfigUpdate env (sw_s a) (fst (gitScope env (sw_s a) w)) (nat idx)
               (c\<lparr>ActiveKey := idx\<rparr>) w5)))"
proof -
  from assms have ne: "Keys c \<noteq> []" by auto
  from switchCmd_entered [OF ne assms(1), of env a] obtain wp where
    wp: "files wp = files w" "git_log wp = git_log w"
    "switchCmd env a c w = switchTo env (sw_s a) idx c wp"
    by blast
  have "switchReady env c wp (Keys c ! nat idx)"
    using assms(4) by (simp add: switchReady_files [OF wp(1)])
  from switchTo_ready [OF assms(2,3) this, of "sw_s a"] obtain w5 c' w6 where
    r: "switchTo env (sw_s a) idx c wp =
        Return c' (switchFinish env (c\<lparr>ActiveKey := idx\<rparr>) (Keys c ! nat idx) idx w6)"
    and g: "(c', w6) = gitConfigUpdate env (sw_s a) (fst (gitScope env (sw_s a) wp)) (nat idx)
              (c\<lparr>ActiveKey := idx\<rparr>) w5"
    and l: "git_log w5 = git_log wp"
    by blast
  have gf: "fst (gitScope env (sw_s a) wp) = fst (gitScope env (sw_s a) w)"
    by (rule fst_gitScope)
  from g have "c' = fst (gitConfigUpdate env (sw_s a) (fst (gitScope env (sw_s a) w)) (nat idx)
              (c\<lparr>ActiveKey := idx\<rparr>) w5)"
    and "w6 = snd (gitConfigUpdate env (sw_s a) (fst (gitScope env (sw_s a) w)) (nat idx)
              (c\<lparr>ActiveKey := idx\<rparr>) w5)"
    unfolding gf by (metis fst_conv, metis snd_conv)
  with r wp(2,3) l show ?thesis
    by auto
qed

text \<open>
  Claim C8. What a switch leaves behind, apart from what it prints, does not depend on
  which Git commands fail: with any other oracle \<open>g\<close> for the failures the command
  ends the same way (the same exit, or the same store returned), with the same files
  and the same Git commands run. And when the switch returns, every entry of the
  settings of the activated record whose value is a string was applied by a command of
  its own, and is reported: as failed when its command failed, as set otherwise.
\<close>

theorem git_failure_not_fatal:
  "silent (switchCmd (env\<lparr>git_fails := g\<rparr>) a c w) = silent (switchCmd env a c w) \<and>
   (\<forall>c' w' m k v.
      switchCmd env a c w = Return c' w' \<and> enteredIndex w = Some idx \<and>
      GitConfig (Keys c' ! nat idx) = Some m \<and>
      set (range_order env (sorted_list_of_fset (fmdom m))) = fset (fmdom m) \<and>
      fmlookup m k = Some (JString v) \<longrightarrow>
        gitArgs (sw_s a) (fst (gitScope env (sw_s a) w)) k v \<in> set (git_log w') \<and>
        (if git_fails env (gitArgs (sw_s a) (fst (gitScope env (sw_s a) w)) k v)
         then GitConfigFailed k (sw_s a) else GitConfigSet k v (sw_s a)) \<in> set (out w'))"
proof (intro conjI allI impI)
  show "silent (switchCmd (env\<lparr>git_fails := g\<rparr>) a c w) = silent (switchCmd env a c w)"
    by (rule silent_switchCmd)
next
  fix c' w' m k v
  assume h: "switchCmd env a c w = Return c' w' \<and> enteredIndex w = Some idx \<and>
      GitConfig (Keys c' ! nat idx) = Some m \<and>
      set (range_order env (sorted_list_of_fset (fmdom m))) = fset (fmdom m) \<and>
      fmlookup m k = Some (JString v)"
  let ?gf = "fst (gitScope env (sw_s a) w)"
  let ?c1 = "c\<lparr>ActiveKey := idx\<rparr>"
  let ?key = "Keys c ! nat idx"
  from h switchCmd_Return [of env a c w c' w' idx] have
    v: "0 \<le> idx" "idx < int (length (Keys c))" and rd: "switchReady env c w ?key"
    by simp_all
  from switchCmd_shape [OF _ v rd, of a] h obtain w5 where
    c': "c' = fst (gitConfigUpdate env (sw_s a) ?gf (nat idx) ?c1 w5)"
    and w': "w' = switchFinish env ?c1 ?key idx
                    (snd (gitConfigUpdate env (sw_s a) ?gf (nat idx) ?c1 w5))"
    by auto
  from v have n: "nat idx < length (Keys c)" by auto
  have "\<exists>m0. GitConfig ?key = Some m0"
  proof (cases "GitConfig ?key")
    case None
    with h show ?thesis
      by (simp add: c' fst_gitConfigUpdate)
  next
    case (Some m0)
    then show ?thesis by blast
  qed
  then obtain m0 where m0': "GitConfig ?key = Some m0" ..
  then have m0: "GitConfig (Keys ?c1 ! nat idx) = Some m0"
    by simp
  with h n have m: "m = fmupd ''core.sshCommand'' (JString (sshCommand ?c1)) m0"
    by (simp add: c' fst_gitConfigUpdate m0')
  from h have "(k, JString v) \<in> set (rangeMap env m)"
    by (simp add: set_rangeMap)
  then have e: "(k, v) \<in> set (stringEntries
           (rangeMap env (fmupd ''core.sshCommand'' (JString (sshCommand ?c1)) m0)))"
    by (simp add: in_stringEntries m)
  let ?w6 = "snd (gitConfigUpdate env (sw_s a) ?gf (nat idx) ?c1 w5)"
  have "(\<lambda>(k, v). gitArgs (sw_s a) ?gf k v) (k, v) \<in>
      (\<lambda>(k, v). gitArgs (sw_s a) ?gf k v) ` set (stringEntries
           (rangeMap env (fmupd ''core.sshCommand'' (JString (sshCommand ?c1)) m0)))"
    using e by (rule imageI)
  then have "gitArgs (sw_s a) ?gf k v \<in> set (git_log ?w6)"
    by (simp add: git_log_gitConfigUpdate m0')
  then show "gitArgs (sw_s a) ?gf k v \<in> set (git_log w')"
    by (simp add: w')
  have "(if git_fails env (gitArgs (sw_s a) ?gf k v) then GitConfigFailed k (sw_s a)
          else GitConfigSet k v (sw_s a)) \<in> set (out ?w6)"
    using m0 e by (rule out_gitConfigUpdate_reported)
  then show "(if git_fails env (gitArgs (sw_s a) ?gf k v) then GitConfigFailed k (sw_s a)
          else GitConfigSet k v (sw_s a)) \<in> set (out w')"
    unfolding w' by (rule out_switchFinish)
qed


subsection \<open>The properties of a switch on the concrete machine\<close>

lemma two_keys_simps:
  "Keys two_keys = [work_key, old_key]" "ActiveKey two_keys = 1"
  "SSHConfig two_keys = ''/home/u/.ssh/config''"
  by (simp_all add: two_keys_def newConfig_def unix_env_def unix_join_def)

lemma entered_two_keys:
  "enteredIndex (two_keys_world (''0'' # rest)) = Some 0"
  "enteredIndex (two_keys_world (''1'' # rest)) = Some 1"
  "enteredIndex (two_keys_world (''5'' # rest)) = Some 5"
  by (simp_all add: enteredIndex_def two_keys_world_def readLine_def trimSpace_def isSpace_def
      atoi_def digitsVal_def digitVal_def isDigit_def fits_int_def Let_def)

lemma ready_two_keys:
  "switchReady unix_env two_keys (two_keys_world input) work_key"
  "switchReady unix_env two_keys (two_keys_world input) old_key"
  by (simp_all add: switchReady_def unix_env_def two_keys_world_def work_key_def old_key_def
      file_exists_def)




lemma switchCmd_no_git_config:
  assumes "enteredIndex w = Some idx" and "0 \<le> idx" and "idx < int (length (Keys c))"
    and "switchReady env c w (Keys c ! nat idx)" and "GitConfig (Keys c ! nat idx) = None"
  shows "returned (switchCmd env a c w) = Some (c\<lparr>ActiveKey := idx\<rparr>) \<and>
         gitLogAfter (switchCmd env a c w) = Some (git_log w)"
proof -
  from switchCmd_shape [OF assms(1-4), of a] obtain w5 where
    "git_log w5 = git_log w" and
    "switchCmd env a c w =
       Return
         (fst (gitConfigUpdate env (sw_s a) (fst (gitScope env (sw_s a) w)) (nat idx)
            (c\<lparr>ActiveKey := idx\<rparr>) w5))
         (switchFinish env (c\<lparr>ActiveKey := idx\<rparr>) (Keys c ! nat idx) idx
            (snd (gitConfigUpdate env (sw_s a) (fst (gitScope env (sw_s a) w)) (nat idx)
               (c\<lparr>ActiveKey := idx\<rparr>) w5)))"
    by blast
  then show ?thesis
    using assms(5)
    by (simp add: returned_def finalWorld_def gitLogAfter_def fst_gitConfigUpdate
        git_log_gitConfigUpdate)
qed

text \<open>
  Claim C7 as stated fails for a record whose map of Git settings is absent: the
  switch to \<open>old\<close> returns the store as it was, without \<^verbatim>\<open>core.sshCommand\<close> in the
  record, and runs no Git command.
\<close>

theorem switch_absent_settings_counterexample:
  "GitConfig (Keys two_keys ! 1) = None \<and>
   returned (switchCmd unix_env no_args two_keys (two_keys_world [''1''])) = Some two_keys \<and>
   gitLogAfter (switchCmd unix_env no_args two_keys (two_keys_world [''1''])) = Some []"
proof -
  have "GitConfig (Keys two_keys ! nat 1) = None"
    by (simp add: two_keys_simps old_key_def)
  moreover have "git_log (two_keys_world [''1'']) = []"
    by (simp add: two_keys_world_def)
  moreover have "two_keys\<lparr>ActiveKey := 1\<rparr> = two_keys"
    by (simp add: two_keys_def)
  ultimately show ?thesis
    using switchCmd_no_git_config [of "two_keys_world [''1'']" 1 two_keys unix_env no_args]
      entered_two_keys(2) [of "[]"] ready_two_keys(2) [of "[''1'']"]
    by (simp add: two_keys_simps)
qed

text \<open>A switch to \<open>work\<close>: the record gets \<^verbatim>\<open>core.sshCommand\<close>, and both
  settings are applied.\<close>

theorem switch_git_settings_witness:
  "\<exists>c' w'. switchCmd unix_env no_args two_keys (two_keys_world [''0'']) = Return c' w' \<and>
     GitConfig (Keys c' ! 0) =
       Some (fmupd ''core.sshCommand'' (JString ''ssh -F /home/u/.ssh/config'')
              (fmupd ''user.name'' (JString ''W'') fmempty)) \<and>
     [''git'', ''config'', ''--global'', ''core.sshCommand'', ''ssh -F /home/u/.ssh/config'']
       \<in> set (git_log w') \<and>
     [''git'', ''config'', ''--global'', ''user.name'', ''W''] \<in> set (git_log w')"
proof -
  have g: "GitConfig work_key = Some (fmupd ''user.name'' (JString ''W'') fmempty)"
    by (simp add: work_key_def)
  have r: "range_order unix_env ks = ks" for ks
    by (simp add: unix_env_def)
  have s: "sw_s no_args = ''global''"
    by (simp add: no_args_def)
  have sl: "slashes ''/home/u/.ssh/config'' = ''/home/u/.ssh/config''"
    by (simp add: slashes_def)
  from switch_git_settings [of "two_keys_world [''0'']" 0 two_keys unix_env no_args]
    entered_two_keys(1) [of "[]"] ready_two_keys(1) [of "[''0'']"]
  obtain c' w' where
    "switchCmd unix_env no_args two_keys (two_keys_world [''0'']) = Return c' w'"
    and "c' = two_keys\<lparr>ActiveKey := 0,
           Keys := (Keys two_keys)[0 := work_key\<lparr>GitConfig :=
             Some (fmupd ''core.sshCommand'' (JString ''ssh -F /home/u/.ssh/config'')
                    (fmupd ''user.name'' (JString ''W'') fmempty))\<rparr>]\<rparr>"
    and "\<forall>k v. fmlookup (fmupd ''core.sshCommand'' (JString ''ssh -F /home/u/.ssh/config'')
                    (fmupd ''user.name'' (JString ''W'') fmempty)) k = Some (JString v) \<longrightarrow>
           gitArgs ''global'' (fst (gitScope unix_env ''global'' (two_keys_world [''0'']))) k v
             \<in> set (git_log w')"
    by (auto simp add: two_keys_simps g r s sl Let_def)
  moreover from this(3) have
    "gitArgs ''global'' (fst (gitScope unix_env ''global'' (two_keys_world [''0''])))
       ''core.sshCommand'' ''ssh -F /home/u/.ssh/config'' \<in> set (git_log w')"
    "gitArgs ''global'' (fst (gitScope unix_env ''global'' (two_keys_world [''0''])))
       ''user.name'' ''W'' \<in> set (git_log w')"
    by simp_all
  ultimately show ?thesis
    by (auto simp add: gitArgs_def two_keys_simps)
qed


text \<open>On a machine where every Git command fails the switch to \<open>work\<close> ends as on
  one where none does, both commands are run, and both failures are reported.\<close>

theorem git_failure_not_fatal_witness:
  "silent (switchCmd (unix_env\<lparr>git_fails := \<lambda>_. True\<rparr>) no_args two_keys (two_keys_world [''0''])) =
   silent (switchCmd unix_env no_args two_keys (two_keys_world [''0''])) \<and>
   (\<exists>c' w'. switchCmd (unix_env\<lparr>git_fails := \<lambda>_. True\<rparr>) no_args two_keys
               (two_keys_world [''0'']) = Return c' w' \<and>
      [''git'', ''config'', ''--global'', ''user.name'', ''W''] \<in> set (git_log w') \<and>
      GitConfigFailed ''user.name'' ''global'' \<in> set (out w') \<and>
      GitConfigFailed ''core.sshCommand'' ''global'' \<in> set (out w'))"
proof -
  let ?env = "unix_env\<lparr>git_fails := \<lambda>_. True\<rparr>"
  let ?w = "two_keys_world [''0'']"
  let ?m = "fmupd ''core.sshCommand'' (JString ''ssh -F /home/u/.ssh/config'')
              (fmupd ''user.name'' (JString ''W'') fmempty)"
  have rst: "?env\<lparr>git_fails := \<lambda>_. False\<rparr> = unix_env"
    by (simp add: unix_env_def)
  have ready: "switchReady ?env two_keys ?w (Keys two_keys ! nat 0)"
    by (simp add: switchReady_def unix_env_def two_keys_world_def work_key_def file_exists_def
        two_keys_simps)
  have s: "sw_s no_args = ''global''"
    by (simp add: no_args_def)
  have sc: "sshCommand (two_keys\<lparr>ActiveKey := 0\<rparr>) = ''ssh -F /home/u/.ssh/config''"
    by (simp add: sshCommand_def slashes_def two_keys_simps)
  from switchCmd_shape [of ?w 0 two_keys ?env no_args] entered_two_keys(1) [of "[]"] ready
  obtain w5 where
    ret: "switchCmd ?env no_args two_keys ?w =
       Return
         (fst (gitConfigUpdate ?env (sw_s no_args) (fst (gitScope ?env (sw_s no_args) ?w)) (nat 0)
            (two_keys\<lparr>ActiveKey := 0\<rparr>) w5))
         (switchFinish ?env (two_keys\<lparr>ActiveKey := 0\<rparr>) (Keys two_keys ! nat 0) 0
            (snd (gitConfigUpdate ?env (sw_s no_args) (fst (gitScope ?env (sw_s no_args) ?w)) (nat 0)
               (two_keys\<lparr>ActiveKey := 0\<rparr>) w5)))"
    by (auto simp add: two_keys_simps)
  let ?c' = "fst (gitConfigUpdate ?env (sw_s no_args) (fst (gitScope ?env (sw_s no_args) ?w)) (nat 0)
            (two_keys\<lparr>ActiveKey := 0\<rparr>) w5)"
  have m: "GitConfig (Keys ?c' ! nat 0) = Some ?m"
    by (simp add: fst_gitConfigUpdate two_keys_simps work_key_def sc)
  have perm: "set (range_order ?env (sorted_list_of_fset (fmdom ?m))) = fset (fmdom ?m)"
    by (simp add: unix_env_def)
  note t = git_failure_not_fatal [where env = ?env and g = "\<lambda>_. False" and a = no_args
      and c = two_keys and w = ?w and idx = 0]
  from t have 1: "silent (switchCmd ?env no_args two_keys ?w) =
      silent (switchCmd unix_env no_args two_keys ?w)"
    by (simp add: rst)
  from t ret m perm entered_two_keys(1) [of "[]"] have
    2: "fmlookup ?m k = Some (JString v) \<Longrightarrow>
        gitArgs ''global'' (fst (gitScope ?env ''global'' ?w)) k v \<in> set (git_log
          (switchFinish ?env (two_keys\<lparr>ActiveKey := 0\<rparr>) (Keys two_keys ! nat 0) 0
            (snd (gitConfigUpdate ?env (sw_s no_args) (fst (gitScope ?env (sw_s no_args) ?w)) (nat 0)
               (two_keys\<lparr>ActiveKey := 0\<rparr>) w5)))) \<and>
        GitConfigFailed k ''global'' \<in> set (out
          (switchFinish ?env (two_keys\<lparr>ActiveKey := 0\<rparr>) (Keys two_keys ! nat 0) 0
            (snd (gitConfigUpdate ?env (sw_s no_args) (fst (gitScope ?env (sw_s no_args) ?w)) (nat 0)
               (two_keys\<lparr>ActiveKey := 0\<rparr>) w5))))" for k v
    by (simp add: s)
  from 2 [of "''user.name''" "''W''"] 2 [of "''core.sshCommand''" "''ssh -F /home/u/.ssh/config''"]
  show ?thesis
    using 1 ret by (simp add: gitArgs_def)
qed

subsection \<open>Generating two key pairs with one name\<close>

lemma uniqueLoop_candidate:
  "uniqueLoop env w cp base (candidate env cp base i) (int i + 1) =
     (if statNotExist env w (candidate env cp base i) then Some (candidate env cp base i)
      else uniqueLoop env w cp base (candidate env cp base (Suc i)) (int (Suc i) + 1))"
proof -
  have "path_join env [cp, base @ ''_'' @ itoa (int i + 1) @ ''.key''] = candidate env cp base (Suc i)"
    by (simp add: candidate_def add.commute)
  moreover have "int i + 1 + 1 = int (Suc i) + 1"
    by simp
  ultimately show ?thesis
    by (subst uniqueLoop.simps) simp
qed

lemma uniqueLoop_finds:
  assumes "statNotExist env w (candidate env cp base (i + d))"
    and "\<forall>k<d. \<not> statNotExist env w (candidate env cp base (i + k))"
  shows "uniqueLoop env w cp base (candidate env cp base i) (int i + 1) =
           Some (candidate env cp base (i + d))"
  using assms
proof (induction d arbitrary: i)
  case 0
  then show ?case
    by (simp add: uniqueLoop_candidate)
next
  case (Suc d)
  from Suc.prems(2) have here: "\<not> statNotExist env w (candidate env cp base i)"
    by (metis add.right_neutral zero_less_Suc)
  have "statNotExist env w (candidate env cp base (Suc i + d))"
    using Suc.prems(1) by simp
  moreover have "\<forall>k<d. \<not> statNotExist env w (candidate env cp base (Suc i + k))"
  proof (intro allI impI)
    fix k
    assume "k < d"
    then have "Suc k < Suc d" by simp
    with Suc.prems(2) have "\<not> statNotExist env w (candidate env cp base (i + Suc k))" by blast
    then show "\<not> statNotExist env w (candidate env cp base (Suc i + k))" by simp
  qed
  ultimately have "uniqueLoop env w cp base (candidate env cp base (Suc i)) (int (Suc i) + 1) =
      Some (candidate env cp base (Suc i + d))"
    by (rule Suc.IH)
  with here show ?case
    by (simp add: uniqueLoop_candidate)
qed

lemma getUniqueFilePaths_least:
  assumes "statNotExist env w (candidate env cp base n)"
    and "\<forall>k<n. \<not> statNotExist env w (candidate env cp base k)"
  shows "getUniqueFilePaths env w cp base =
           Some (candidate env cp base n, candidate env cp base n @ ''.pub'')"
proof -
  have "path_join env [cp, base @ ''.key''] = candidate env cp base 0"
    by (simp add: candidate_def)
  moreover have "uniqueLoop env w cp base (candidate env cp base 0) (int 0 + 1) =
      Some (candidate env cp base (0 + n))"
    using assms by (intro uniqueLoop_finds) simp_all
  ultimately show ?thesis
    by (simp add: getUniqueFilePaths_def)
qed












lemma unix_candidate:
  "candidate unix_env cp base i =
     cp @ ''/'' @ base @ (if i = 0 then [] else ''_'' @ natDigits i) @ ''.key''"
  by (simp add: candidate_def unix_env_def unix_join_def itoa_def)









subsection \<open>Saving and loading the store\<close>

lemma marshalValue_text: "textValue j \<Longrightarrow> marshalValue j = j"
  by (cases j) (simp_all add: textValue_def marshalValue_def validUTF8_def)

lemma fmmap_marshalValue:
  assumes "fmpred (\<lambda>_. textValue) g"
  shows "fmmap marshalValue g = g"
proof (rule fmap_ext)
  fix x
  show "fmlookup (fmmap marshalValue g) x = fmlookup g x"
  proof (cases "fmlookup g x")
    case None
    then show ?thesis by simp
  next
    case (Some j)
    with assms have "textValue j"
      by (auto dest: fmpredD)
    with Some show ?thesis
      by (simp add: marshalValue_text)
  qed
qed

lemma unmarshalKey_marshalKey:
  assumes "textRecord k"
  shows "unmarshalKey (marshalKey k) = Some k"
proof (cases "GitConfig k")
  case None
  with assms show ?thesis
    by (cases k)
      (simp add: unmarshalKey_def marshalKey_def decodeString_def decodeMap_def
        fmlookup_of_list textRecord_def validUTF8_def)
next
  case (Some g)
  with assms have "fmmap marshalValue g = g"
    by (simp add: textRecord_def fmmap_marshalValue)
  with assms Some show ?thesis
    by (cases k)
      (simp add: unmarshalKey_def marshalKey_def decodeString_def decodeMap_def
        fmlookup_of_list textRecord_def validUTF8_def)
qed

lemma those_unmarshalKey:
  "list_all textRecord ks \<Longrightarrow> those (map (unmarshalKey \<circ> marshalKey) ks) = Some ks"
  by (induction ks) (simp_all add: unmarshalKey_marshalKey)

lemma unmarshalConfig_marshalConfig:
  assumes "fits_int (ActiveKey c)" and "list_all textRecord (Keys c)"
  shows "unmarshalConfig (marshalConfig c) c0 = Some (c0\<lparr>Keys := Keys c, ActiveKey := ActiveKey c\<rparr>)"
  using assms
  by (simp add: unmarshalConfig_def marshalConfig_def unmarshalKeys_def unmarshalActive_def
      fmlookup_of_list those_unmarshalKey)

text \<open>
  Claim C5, amended. The store file can be written and read, the active index is a Go
  \<^verbatim>\<open>int\<close>, and the strings of the records (names, paths and the strings among the
  Git settings) are valid UTF-8. Then \<^verbatim>\<open>saveConfig\<close> followed by \<^verbatim>\<open>loadConfig\<close>
  into the store of a new process, which has the same paths, no records and the active
  index \<open>0\<close>, gives back the store that was saved: the same records in the same
  order, with the same fields, and the same active index.
\<close>

theorem save_load_roundtrip:
  assumes "\<not> write_fails env (configFile env c)" and "\<not> read_fails env (configFile env c)"
    and "fits_int (ActiveKey c)" and "list_all textRecord (Keys c)"
  shows "\<exists>w'. saveConfig env c w = Return c w' \<and>
           loadConfig env (c\<lparr>Keys := [], ActiveKey := 0\<rparr>) w' = Return c w'"
proof -
  let ?w' = "w\<lparr>store_file := Some (Document (marshalConfig c))\<rparr>"
  let ?c0 = "c\<lparr>Keys := [], ActiveKey := 0\<rparr>"
  have "saveConfig env c w = Return c ?w'"
    using assms(1) by (simp add: saveConfig_def)
  moreover have "configFile env ?c0 = configFile env c"
    by (simp add: configFile_def)
  then have "loadConfig env ?c0 ?w' = Return c ?w'"
    using assms(2) unmarshalConfig_marshalConfig [OF assms(3,4), of ?c0]
    by (simp add: loadConfig_def)
  ultimately show ?thesis by blast
qed

text \<open>The store with the records \<open>work\<close> and \<open>old\<close>, one with Git settings and one
  without, is read back by a new process.\<close>

lemma textRecord_two_keys: "list_all textRecord (Keys two_keys)"
proof -
  have "validUTF8 ''work''" "validUTF8 ''/k/work''" "validUTF8 ''/k/work.pub''"
    "validUTF8 ''/k/work.conf''" "validUTF8 ''W''" "validUTF8 ''old''" "validUTF8 ''/k/old''"
    "validUTF8 ''/k/old.pub''" "validUTF8 []"
    by code_simp+
  then show ?thesis
    by (auto simp add: two_keys_simps textRecord_def work_key_def old_key_def textValue_def
        intro!: fmpred_upd)
qed

theorem save_load_roundtrip_witness:
  "fits_int (ActiveKey two_keys) \<and> list_all textRecord (Keys two_keys) \<and>
   (\<exists>w'. saveConfig unix_env two_keys empty_world = Return two_keys w' \<and>
          loadConfig unix_env (newConfig unix_env) w' = Return two_keys w')"
proof -
  have f: "fits_int (ActiveKey two_keys)"
    by (simp add: two_keys_simps fits_int_def)
  have n: "two_keys\<lparr>Keys := [], ActiveKey := 0\<rparr> = newConfig unix_env"
    by (simp add: two_keys_def newConfig_def)
  have e: "\<not> write_fails unix_env p" "\<not> read_fails unix_env p" for p
    by (simp_all add: unix_env_def)
  show ?thesis
    using f e textRecord_two_keys
      save_load_roundtrip [where env = unix_env and c = two_keys and w = empty_world]
    by (simp add: n)
qed

text \<open>
  Claim C5 as stated fails for a store built by \<^verbatim>\<open>gen -g\<close> alone, when the name is
  not valid UTF-8. On a machine without files the command with the name \<open>FF\<close> (one
  byte) returns the store \<open>odd_store\<close> and saves it; the store a new process loads
  from that file has the name and the paths with \<open>EF BF BD\<close> in the place of that
  byte, and is another store.
\<close>

theorem roundtrip_invalid_utf8_counterexample:
  "returned (main unix_env (no_args\<lparr>subcommand := Some ''gen'', gen_g := [CHR 0xFF]\<rparr>) empty_world) =
     Some odd_store \<and>
   finalWorld (main unix_env (no_args\<lparr>subcommand := Some ''gen'', gen_g := [CHR 0xFF]\<rparr>) empty_world) =
     Some odd_world \<and>
   returned (loadConfig unix_env (newConfig unix_env) odd_world) = Some odd_store_loaded \<and>
   odd_store_loaded \<noteq> odd_store"
proof -
  let ?a = "no_args\<lparr>subcommand := Some ''gen'', gen_g := [CHR 0xFF]\<rparr>"
  let ?p = "''/home/u/.gss/'' @ [CHR 0xFF] @ ''.key''"
  have n: "Keys (newConfig unix_env) = []" "ConfigPath (newConfig unix_env) = ''/home/u/.gss''"
    "newConfig unix_env\<lparr>Keys := []\<rparr> = newConfig unix_env"
    by (simp_all add: newConfig_def unix_env_def unix_join_def)
  have e: "\<not> mkdir_fails unix_env p" "\<not> write_fails unix_env p" "\<not> create_fails unix_env p"
    "\<not> read_fails unix_env p" "path_abs unix_env p = Some p"
    "rsa_generate unix_env = Some \<lparr>private_pem = ''PRIVATE'', public_line = Some ''PUBLIC''\<rparr>" for p
    by (simp_all add: unix_env_def)
  have l: "loadConfig unix_env (newConfig unix_env) empty_world =
      Return (newConfig unix_env) empty_world"
    by (simp add: loadConfig_def empty_world_def n)
  have cand: "candidate unix_env ''/home/u/.gss'' [CHR 0xFF] 0 = ?p"
    by (simp add: unix_candidate)
  have "getUniqueFilePaths unix_env empty_world ''/home/u/.gss'' [CHR 0xFF] =
      Some (candidate unix_env ''/home/u/.gss'' [CHR 0xFF] 0,
            candidate unix_env ''/home/u/.gss'' [CHR 0xFF] 0 @ ''.pub'')"
    by (rule getUniqueFilePaths_least)
      (simp_all add: cand statNotExist_def file_exists_def empty_world_def unix_env_def)
  then have gu: "getUniqueFilePaths unix_env empty_world ''/home/u/.gss'' [CHR 0xFF] =
      Some (?p, ?p @ ''.pub'')"
    by (simp add: cand)
  have "generateKeyPair unix_env [CHR 0xFF] (newConfig unix_env) empty_world =
      Return (newConfig unix_env\<lparr>Keys := [odd_key [CHR 0xFF]]\<rparr>)
        (emit (Generated [CHR 0xFF] ?p (?p @ ''.pub''))
           (empty_world\<lparr>files := (files empty_world)(?p \<mapsto> ''PRIVATE'', ?p @ ''.pub'' \<mapsto> ''PUBLIC'')\<rparr>))"
    by (simp add: generateKeyPair_def gu n e Let_def odd_key_def)
  then have g: "generateKeyPair unix_env [CHR 0xFF] (newConfig unix_env) empty_world =
      Return odd_store (odd_world\<lparr>store_file := None\<rparr>)"
    by (simp add: emit_def odd_store_def odd_world_def empty_world_def)
  have d: "dispatch unix_env ?a ''gen'' c w = generateKeyPair unix_env [CHR 0xFF] c w" for c w
    by (simp add: dispatch_def generateCmd_def no_args_def)
  have m: "main unix_env ?a empty_world = Return odd_store odd_world"
    by (simp add: main_def e l d g saveConfig_def odd_world_def)
  have u: "coerceUTF8 [CHR 0xFF] = [CHR 0xEF, CHR 0xBF, CHR 0xBD]"
    "coerceUTF8 (''/home/u/.gss/'' @ [CHR 0xFF] @ ''.key'') =
       ''/home/u/.gss/'' @ [CHR 0xEF, CHR 0xBF, CHR 0xBD] @ ''.key''"
    "coerceUTF8 (''/home/u/.gss/'' @ [CHR 0xFF] @ ''.key.pub'') =
       ''/home/u/.gss/'' @ [CHR 0xEF, CHR 0xBF, CHR 0xBD] @ ''.key.pub''"
    "coerceUTF8 [] = []"
    by code_simp+
  have k: "unmarshalKey (marshalKey (odd_key [CHR 0xFF])) = Some (odd_key [CHR 0xEF, CHR 0xBF, CHR 0xBD])"
    using u
    by (simp add: unmarshalKey_def marshalKey_def decodeString_def decodeMap_def
        fmlookup_of_list odd_key_def)
  have "unmarshalConfig (marshalConfig odd_store) (newConfig unix_env) = Some odd_store_loaded"
    by (simp add: unmarshalConfig_def marshalConfig_def unmarshalKeys_def unmarshalActive_def
        fmlookup_of_list odd_store_def odd_store_loaded_def k fits_int_def newConfig_def)
  then have ld: "loadConfig unix_env (newConfig unix_env) odd_world = Return odd_store_loaded odd_world"
    by (simp add: loadConfig_def odd_world_def e)
  have ne: "odd_store_loaded \<noteq> odd_store"
  proof
    assume "odd_store_loaded = odd_store"
    then have "Keys odd_store_loaded = Keys odd_store" by simp
    then show False
      by (simp add: odd_store_loaded_def odd_store_def odd_key_def)
  qed
  from m ld ne show ?thesis
    by (simp add: returned_def finalWorld_def)
qed

subsection \<open>The active index of the store that is saved\<close>

lemma validActive_append:
  "validActive c \<Longrightarrow> validActive (c\<lparr>Keys := Keys c @ ks\<rparr>)"
  by (auto simp add: validActive_def)

lemma generateKeyPair_validActive:
  assumes "validActive c" and "generateKeyPair env name c w = Return c' w'"
  shows "validActive c'"
proof -
  from assms(2) obtain k where "c' = c\<lparr>Keys := Keys c @ [k]\<rparr>"
    by (auto simp add: generateKeyPair_def Let_def split: option.splits if_splits prod.splits)
  with assms(1) show ?thesis
    by (simp add: validActive_append)
qed

lemma importKeyPair_validActive:
  assumes "validActive c" and "importKeyPair env priv pub name sc g c w = Return c' w'"
  shows "validActive c'"
proof -
  from assms(2) obtain k where "c' = c\<lparr>Keys := Keys c @ [k]\<rparr>"
    by (auto simp add: importKeyPair_def split: if_splits)
  with assms(1) show ?thesis
    by (simp add: validActive_append)
qed

lemma removeKey_validActive:
  assumes "validActive c" and "0 \<le> idx" and "idx < int (length (Keys c))"
  shows "validActive (fst (removeKey env idx c w))"
proof -
  from assms(2,3) have "int (length (without (nat idx) (Keys c))) = int (length (Keys c)) - 1"
    by (simp add: length_without)
  moreover have "without (nat idx) (Keys c) \<noteq> [] \<longleftrightarrow> 0 < length (without (nat idx) (Keys c))"
    by simp
  ultimately show ?thesis
    using assms unfolding validActive_def Keys_removeKey ActiveKey_removeKey
    by (auto simp del: length_greater_0_conv)
qed

lemma deleteCmd_validActive:
  assumes "validActive c" and "deleteCmd env a c w = Return c' w'"
  shows "validActive c'"
proof (cases "deleteIndex a c w")
  case (Inl fw)
  with assms(2) show ?thesis
    by (simp add: deleteCmd_def split_beta)
next
  case (Inr iw)
  obtain idx w1 where iw: "iw = (idx, w1)" by (cases iw)
  from assms(2) Inr iw have v: "0 \<le> idx" "idx < int (length (Keys c))"
    by (auto simp add: deleteCmd_def split: if_splits)
  with assms(2) Inr iw obtain w2 where "c' = fst (removeKey env idx c w2)"
    by (auto simp add: deleteCmd_def split_beta Let_def split: if_splits)
  with assms(1) v show ?thesis
    by (simp add: removeKey_validActive)
qed

lemma switchTo_validActive:
  assumes "switchTo env scope idx c w = Return c' w'"
  shows "validActive c'"
proof (cases "checkIndex idx c")
  case (Inl f)
  with assms show ?thesis
    by (simp add: switchTo_def)
next
  case (Inr c1)
  then have v: "0 \<le> idx" "idx < int (length (Keys c))" and c1: "c1 = c\<lparr>ActiveKey := idx\<rparr>"
    by (auto simp add: checkIndex_def split: if_splits)
  show ?thesis
  proof (cases "writeSSHConfig env c1 (Keys c1 ! nat idx) w")
    case (Inl fw)
    obtain f w0 where "fw = (f, w0)" by (cases fw)
    with Inl assms \<open>checkIndex idx c = Inr c1\<close> show ?thesis
      by (simp add: switchTo_Inl)
  next
    case w4: (Inr w4)
    from assms switchTo_Inr [OF \<open>checkIndex idx c = Inr c1\<close> w4, of scope]
    have "c' = fst (gitConfigUpdate env scope (fst (gitScope env scope w4)) (nat idx) c1
                    (snd (gitScope env scope w4)))"
      by simp
    then have "ActiveKey c' = idx" "length (Keys c') = length (Keys c)"
      by (simp_all add: fst_gitConfigUpdate c1 split: option.splits)
    with v show ?thesis
      by (simp add: validActive_def)
  qed
qed

lemma switchCmd_validActive:
  assumes "switchCmd env a c w = Return c' w'"
  shows "validActive c'"
  using assms
  by (auto simp add: switchCmd_def split: sum.splits dest: switchTo_validActive)

lemma dispatch_validActive:
  assumes "validActive c" and "dispatch env a cmd c w = Return c' w'"
  shows "validActive c'"
proof -
  have "generateCmd env a c w = Return c' w' \<Longrightarrow> validActive c'"
    using assms(1) by (auto simp add: generateCmd_def split: if_splits
        dest: generateKeyPair_validActive)
  moreover have "importCmd env a c w = Return c' w' \<Longrightarrow> validActive c'"
    using assms(1) by (auto simp add: importCmd_def Let_def split: if_splits option.splits
        dest: importKeyPair_validActive)
  moreover have "listCmd a c w = Return c' w' \<Longrightarrow> validActive c'"
    using assms(1) by (auto simp add: listCmd_def)
  moreover have "switchCmd env a c w = Return c' w' \<Longrightarrow> validActive c'"
    by (rule switchCmd_validActive)
  moreover have "deleteCmd env a c w = Return c' w' \<Longrightarrow> validActive c'"
    using assms(1) by (rule deleteCmd_validActive)
  ultimately show ?thesis
    using assms(2) by (auto simp add: dispatch_def split: if_splits)
qed

text \<open>A run that starts from a store file whose active index is valid saves a store
  whose active index is valid.\<close>

lemma main_validActive:
  assumes "store_file w = Some (Document j)"
    and "unmarshalConfig j (newConfig env) = Some c0" and "validActive c0"
    and "main env a w = Return c' w'"
  shows "validActive c' \<and> store_file w' = Some (Document (marshalConfig c'))"
proof -
  from assms(1,2,4) have l: "loadConfig env (newConfig env) w = Return c0 w"
    by (auto simp add: main_def loadConfig_def Let_def split: if_splits)
  with assms(4) obtain cmd c2 w2 where
    d: "dispatch env a cmd c0 w = Return c2 w2" and s: "saveConfig env c2 w2 = Return c' w'"
    by (auto simp add: main_def Let_def split: if_splits option.splits outcome.splits)
  from s have "c' = c2" "store_file w' = Some (Document (marshalConfig c2))"
    by (auto simp add: saveConfig_def split: if_splits)
  with dispatch_validActive [OF assms(3) d] show ?thesis
    by simp
qed

text \<open>
  Claim C1 fails on a machine without a store file. \<^verbatim>\<open>loadConfig\<close> assigns the
  empty list to \<open>Keys\<close> and leaves \<open>ActiveKey\<close> at the zero value \<open>0\<close> of the new
  struct, not at \<open>-1\<close>; the command \<^verbatim>\<open>list\<close> returns, and the deferred
  \<^verbatim>\<open>saveConfig\<close> writes a store with no records and the active index \<open>0\<close>, which
  is set and is no index of the store. (\<^verbatim>\<open>deleteCmd\<close> does write \<open>-1\<close> when it
  empties the store, and by \<open>main_validActive\<close> every run that loads a valid store
  saves a valid one.)
\<close>

theorem fresh_store_list:
  "returned (main unix_env (no_args\<lparr>subcommand := Some ''list''\<rparr>) empty_world) =
     Some (newConfig unix_env) \<and>
   storeFileAfter (main unix_env (no_args\<lparr>subcommand := Some ''list''\<rparr>) empty_world) =
     Some (Document (marshalConfig (newConfig unix_env))) \<and>
   Keys (newConfig unix_env) = [] \<and> ActiveKey (newConfig unix_env) = 0 \<and>
   \<not> validActive (newConfig unix_env)"
proof -
  have n: "Keys (newConfig unix_env) = []" "ActiveKey (newConfig unix_env) = 0"
    "newConfig unix_env\<lparr>Keys := []\<rparr> = newConfig unix_env"
    by (simp_all add: newConfig_def)
  have e: "\<not> mkdir_fails unix_env p" "\<not> write_fails unix_env p" for p
    by (simp_all add: unix_env_def)
  have l: "loadConfig unix_env (newConfig unix_env) empty_world =
      Return (newConfig unix_env) empty_world"
    by (simp add: loadConfig_def empty_world_def n)
  have d: "dispatch unix_env a ''list'' c w = Return c (listKeyPairs c w)" for a c w
    by (simp add: dispatch_def listCmd_def)
  have "main unix_env (no_args\<lparr>subcommand := Some ''list''\<rparr>) empty_world =
      Return (newConfig unix_env)
        ((listKeyPairs (newConfig unix_env) empty_world)
           \<lparr>store_file := Some (Document (marshalConfig (newConfig unix_env)))\<rparr>)"
    by (simp add: main_def e l d saveConfig_def)
  then show ?thesis
    by (simp add: returned_def finalWorld_def storeFileAfter_def n validActive_def)
qed

end
